theory Spec2Isabelle
  imports Complex_Main "HOL-Library.Stream" "HOL-Library.Word"
begin

section \<open>Numbers, vectors and the random source\<close>

text \<open>
  The program computes with C++ \<open>float\<close>. A \<open>float\<close> value is modelled as the real number it
  denotes; infinities and NaN are outside the model. The arithmetic is exact, with one
  exception: the sum of two radii in the collision test of line 163 is the single-precision
  sum \<open>fadd\<close>, because its rounding decides whether a candidate is accepted. Integer-typed
  values keep their machine width where the source gives one.
\<close>

datatype Vector2 = Vector2 (v2x: real) (v2y: real)
datatype Vector3 = Vector3 (v3x: real) (v3y: real) (v3z: real)
datatype Vector4 = Vector4 (v4x: real) (v4y: real) (v4z: real) (v4w: real)

text \<open>
  Modelled from the spec: the subtraction of two \<open>Vector2\<close> and \<open>math::length\<close> of \<open>maths.h\<close>,
  which is not part of the sources: the componentwise difference and the Euclidean length,
  which the spec calls the planar distance between centers.
\<close>

definition v2_sub :: "Vector2 \<Rightarrow> Vector2 \<Rightarrow> Vector2" where
  "v2_sub a b = Vector2 (v2x a - v2x b) (v2y a - v2y b)"

definition v2_length :: "Vector2 \<Rightarrow> real" where
  "v2_length v = sqrt (v2x v * v2x v + v2y v * v2y v)"

text \<open>
  Modelled from the spec: the product of a \<open>Vector3\<close> and a \<open>float\<close> of \<open>maths.h\<close>, which is
  not part of the sources: every component is scaled. \<open>math::sin\<close>, \<open>math::cos\<close> and
  \<open>math::abs\<close> of the same header are the sine, the cosine and the absolute value of a real.
\<close>

definition v3_scale :: "Vector3 \<Rightarrow> real \<Rightarrow> Vector3" where
  "v3_scale v k = Vector3 (v3x v * k) (v3y v * k) (v3z v * k)"

text \<open>
  Modelled from the spec: the constants \<open>math::PI\<close>, \<open>math::PI2\<close> and \<open>math::PIHALF\<close> of
  \<open>maths.h\<close>, which is not part of the sources. The spec names \<open>\<pi>\<close>, the full turn 2\<open>\<pi>\<close> of
  the angle drawn "uniformly in [0, 2\<open>\<pi>\<close>)", and \<open>\<pi>\<close>/2; a \<open>float\<close> constant holds the
  single-precision number nearest to each, which is \<open>13176795 / 2 ^ 22\<close> for \<open>\<pi>\<close>.
\<close>

definition PI :: real where "PI = 13176795 / 4194304"
definition PI2 :: real where "PI2 = 13176795 / 2097152"
definition PIHALF :: real where "PIHALF = 13176795 / 8388608"

text \<open>
  Modelled from the spec: \<open>math::random_uniform\<close> of \<open>maths.h\<close>, which is not part of the
  sources. The hidden generator state is made explicit as the stream of unit draws in
  [0, 1) that the successive calls consume; a call with bounds \<open>lo\<close>, \<open>hi\<close> maps its draw
  linearly onto [lo, hi). The call without arguments has the bounds 0 and 1.
\<close>

type_synonym rng = "real stream"

definition random_uniform :: "real \<Rightarrow> real \<Rightarrow> rng \<Rightarrow> real \<times> rng" where
  "random_uniform lo hi g = (lo + shd g * (hi - lo), stl g)"

text \<open>
  Rounding to single precision (binary32, round to nearest, ties to the even significand):
  \<open>float_round v\<close> is the multiple of the unit in the last place of \<open>v\<close> that is nearest to
  \<open>v\<close>. The unit is \<open>2 ^ (e - 23)\<close> for \<open>2 ^ e \<le> \<bar>v\<bar> < 2 ^ (e + 1)\<close>, and \<open>2 ^ (- 149)\<close> below
  the normal range. Overflow to infinity is outside the model. \<open>fadd\<close> is the \<open>+\<close> of two
  \<open>float\<close> values.
\<close>

definition round_to_even :: "real \<Rightarrow> int" where
  "round_to_even y =
     (let f = \<lfloor>y\<rfloor>
      in if y - of_int f < 1 / 2 then f
         else if 1 / 2 < y - of_int f then f + 1
         else if even f then f else f + 1)"

definition float_round :: "real \<Rightarrow> real" where
  "float_round v =
     (if v = 0 then 0
      else (let e = max \<lfloor>log 2 \<bar>v\<bar>\<rfloor> (- 126);
                u = 2 powr (of_int e - 23)
            in of_int (round_to_even (v / u)) * u))"

definition fadd :: "real \<Rightarrow> real \<Rightarrow> real" where
  "fadd a b = float_round (a + b)"

text \<open>The conversion \<open>int(f)\<close> of a \<open>float\<close> truncates towards zero.\<close>

definition trunc_int :: "real \<Rightarrow> int" where
  "trunc_int v = (if 0 \<le> v then \<lfloor>v\<rfloor> else \<lceil>v\<rceil>)"

section \<open>The scene: \<open>SpheresBuffer\<close> and \<open>reset_spheres\<close>\<close>

definition SPHERES_COUNT :: nat where "SPHERES_COUNT = 75"
definition GROUP_SIZE_X :: nat where "GROUP_SIZE_X = 32"
definition GROUP_SIZE_Y :: nat where "GROUP_SIZE_Y = 32"

datatype Material = LAMBERT | LAMBERT_CHECKERBOARD | METAL | DIELECTRIC | LIGHT

fun material_code :: "Material \<Rightarrow> nat" where
  "material_code LAMBERT = 0"
| "material_code LAMBERT_CHECKERBOARD = 1"
| "material_code METAL = 2"
| "material_code DIELECTRIC = 3"
| "material_code LIGHT = 4"

record SpheresBuffer =
  positions :: "Vector4 list"
  materials :: "Vector4 list"

text \<open>
  The buffer as \<open>main\<close> fills it before the first generation: the ground sphere in slot 0,
  the "sun" sphere in slot 1, and the remaining slots of the two arrays, which the source
  leaves uninitialised, given by the parameter \<open>rest\<close>.
\<close>

definition initial_spheres :: "Vector4 \<Rightarrow> SpheresBuffer" where
  "initial_spheres rest =
     \<lparr> positions = (replicate SPHERES_COUNT rest)
         [0 := Vector4 0 (- 1000) 0 1000, 1 := Vector4 10 10 0 2],
       materials = (replicate SPHERES_COUNT rest)
         [0 := Vector4 0.15 0.15 0.15 (real (material_code LAMBERT)),
          1 := Vector4 800 800 800 (real (material_code LIGHT))] \<rparr>"

definition SPHERES_CIRCLE_RADIUS :: real where "SPHERES_CIRCLE_RADIUS = 15"

text \<open>
  One pass of the body of the \<open>do ... while\<close>: two draws, the candidate position in the
  circle, and the generator after the draws.
\<close>

definition candidate :: "rng \<Rightarrow> Vector2 \<times> rng" where
  "candidate g =
     (let (a, g1) = random_uniform 0 PI2 g;
          (u, g2) = random_uniform 0 1 g1;
          r = u * SPHERES_CIRCLE_RADIUS
      in (Vector2 (sin a * r - 6) (cos a * r), g2))"

text \<open>
  The inner \<open>for (j = 1; j < i; j++)\<close> with its \<open>break\<close>: the value of \<open>collision\<close> when the
  loop is entered at \<open>j\<close>.
\<close>

function collision_from :: "nat \<Rightarrow> nat \<Rightarrow> Vector4 list \<Rightarrow> Vector2 \<Rightarrow> real \<Rightarrow> bool" where
  "collision_from j i ps current_pos sphere_size =
     (if j < i then
        (let other_sphere = ps ! j;
             other_sphere_pos = Vector2 (v4x other_sphere) (v4z other_sphere)
         in if v2_length (v2_sub other_sphere_pos current_pos)
                 < fadd (v4w other_sphere) sphere_size
            then True
            else collision_from (j + 1) i ps current_pos sphere_size)
      else False)"
  by pat_completeness auto
termination
  by (relation "measure (\<lambda>(j, i, ps, c, s). i - j)") auto

text \<open>
  The \<open>do ... while (collision)\<close>: it has no attempt bound in the source, so it is a
  partial function; \<open>None\<close> is the loop that never leaves.
\<close>

partial_function (option) place_sphere ::
    "Vector4 list \<Rightarrow> nat \<Rightarrow> real \<Rightarrow> rng \<Rightarrow> (Vector2 \<times> rng) option" where
  "place_sphere ps i sphere_size g =
     (if collision_from 1 i ps (fst (candidate g)) sphere_size
      then place_sphere ps i sphere_size (snd (candidate g))
      else Some (candidate g))"

text \<open>
  The table \<open>index_to_mat\<close> and the read \<open>index_to_mat[int(...)]\<close>. The array has
  \<open>ARRAYSIZE(index_to_mat) = 7\<close> slots; a read outside them has no defined result in the
  source and is the error \<open>IndexOutOfBounds\<close> here.
\<close>

datatype error = IndexOutOfBounds

definition index_to_mat :: "Material list" where
  "index_to_mat =
     [LAMBERT, LAMBERT, LAMBERT_CHECKERBOARD, LAMBERT_CHECKERBOARD, METAL, DIELECTRIC, LIGHT]"

definition pick_material :: "real \<Rightarrow> error + Material" where
  "pick_material v =
     (let k = trunc_int v
      in if 0 \<le> k \<and> k < int (length index_to_mat) then Inr (index_to_mat ! nat k)
         else Inl IndexOutOfBounds)"

text \<open>
  The colour of a sphere by material. \<open>colors::hsv_to_rgb\<close> (\<open>colors.h\<close>) is not part of the
  sources and is the parameter \<open>hsv_to_rgb\<close>. The hue is drawn only for the Lambert and the
  light materials.
\<close>

fun sphere_color ::
    "(real \<Rightarrow> real \<Rightarrow> real \<Rightarrow> Vector3) \<Rightarrow> Material \<Rightarrow> rng \<Rightarrow> Vector3 \<times> rng" where
  "sphere_color hsv_to_rgb LAMBERT g =
     (let (h, g1) = random_uniform 180 360 g in (v3_scale (hsv_to_rgb h 0.9 1) 0.2, g1))"
| "sphere_color hsv_to_rgb LAMBERT_CHECKERBOARD g =
     (let (h, g1) = random_uniform 180 360 g in (v3_scale (hsv_to_rgb h 0.9 1) 0.2, g1))"
| "sphere_color hsv_to_rgb METAL g = (Vector3 0.9 0.9 0.9, g)"
| "sphere_color hsv_to_rgb DIELECTRIC g = (Vector3 0.9 0.9 0.9, g)"
| "sphere_color hsv_to_rgb LIGHT g =
     (let (h, g1) = random_uniform 0 360 g in (v3_scale (hsv_to_rgb h 0.2 1) 500, g1))"

text \<open>
  The body of the outer \<open>for\<close> for one index \<open>i\<close>: \<open>None\<close> when the placement loop never
  leaves, \<open>Some (Inl e)\<close> on an error, \<open>Some (Inr (buffer, generator))\<close> otherwise.
\<close>

definition sphere_body ::
    "(real \<Rightarrow> real \<Rightarrow> real \<Rightarrow> Vector3) \<Rightarrow> nat \<Rightarrow> SpheresBuffer \<Rightarrow> rng
       \<Rightarrow> (error + SpheresBuffer \<times> rng) option" where
  "sphere_body hsv_to_rgb i spheres g =
     (let (sphere_size, g1) = random_uniform 0.5 1.0 g
      in case place_sphere (positions spheres) i sphere_size g1 of
           None \<Rightarrow> None
         | Some (p, g2) \<Rightarrow>
             (let ps = (positions spheres)[i := Vector4 (v2x p) sphere_size (v2y p) sphere_size];
                  (v, g3) = random_uniform 0 (real (length index_to_mat)) g2
              in case pick_material v of
                   Inl e \<Rightarrow> Some (Inl e)
                 | Inr mat \<Rightarrow>
                     (let (color, g4) = sphere_color hsv_to_rgb mat g3;
                          ms = (materials spheres)
                                 [i := Vector4 (v3x color) (v3y color) (v3z color)
                                         (real (material_code mat))]
                      in Some (Inr (\<lparr> positions = ps, materials = ms \<rparr>, g4)))))"

text \<open>
  The outer \<open>for (int i = 1; i < SPHERES_COUNT; ++i)\<close>, entered at \<open>i\<close>; the bound is the
  parameter \<open>n\<close>, which \<open>reset_spheres\<close> fixes to \<open>SPHERES_COUNT\<close>.
\<close>

function spheres_loop ::
    "(real \<Rightarrow> real \<Rightarrow> real \<Rightarrow> Vector3) \<Rightarrow> nat \<Rightarrow> nat \<Rightarrow> SpheresBuffer \<Rightarrow> rng
       \<Rightarrow> (error + SpheresBuffer \<times> rng) option" where
  "spheres_loop hsv_to_rgb n i spheres g =
     (if i < n then
        (case sphere_body hsv_to_rgb i spheres g of
           None \<Rightarrow> None
         | Some (Inl e) \<Rightarrow> Some (Inl e)
         | Some (Inr (spheres', g')) \<Rightarrow> spheres_loop hsv_to_rgb n (i + 1) spheres' g')
      else Some (Inr (spheres, g)))"
  by pat_completeness auto
termination
  by (relation "measure (\<lambda>(h, n, i, s, g). n - i)") auto

definition reset_spheres ::
    "(real \<Rightarrow> real \<Rightarrow> real \<Rightarrow> Vector3) \<Rightarrow> SpheresBuffer \<Rightarrow> rng
       \<Rightarrow> (error + SpheresBuffer \<times> rng) option" where
  "reset_spheres hsv_to_rgb spheres g = spheres_loop hsv_to_rgb SPHERES_COUNT 1 spheres g"

section \<open>The render loop of \<open>main\<close>\<close>

text \<open>
  \<open>Config\<close> is the constant buffer handed to the compute shader. \<open>step\<close> is a C++ \<open>int\<close>:
  a 32-bit word, read as signed.
\<close>

record Config =
  camera_pos :: Vector3
  step :: "32 word"
  cfg_render_target_width :: "32 word"
  cfg_render_target_height :: "32 word"
  ambient_light_intensity :: real
  sphere_lights_intensity :: real
  metal_roughness :: real
  refractive_index :: real
  dof_radius :: real
  dof_focal_plane :: real

text \<open>
  A compute shader handle as the program sees it: an opaque identity and the answer of
  \<open>graphics::is_ready\<close>. \<open>FILETIME\<close> and \<open>CompareFileTime\<close> belong to the Windows API: a
  \<open>FILETIME\<close> is a 64-bit count, and \<open>CompareFileTime\<close> orders two of them and returns -1, 0
  or 1.
\<close>

datatype ComputeShader = ComputeShader (shader_id: nat) (is_ready: bool)

type_synonym FILETIME = "64 word"

definition CompareFileTime :: "FILETIME \<Rightarrow> FILETIME \<Rightarrow> int" where
  "CompareFileTime a b = (if a < b then - 1 else if a = b then 0 else 1)"

text \<open>
  The statements of a frame that touch the accumulation or the graphics device, in program
  order: \<open>config.step += 1\<close>, a call of \<open>reset_rendering\<close>, a call of \<open>reset_spheres\<close> that
  returned, a compilation of the reloaded shader source, the release of the old shader, and
  \<open>graphics::run_compute\<close> with its three group counts.
\<close>

datatype event =
    StepTick
  | ResetRendering
  | ResetSpheres
  | CompileShader
  | ReleaseShader ComputeShader
  | RunCompute "32 word" "32 word" "32 word"

text \<open>
  What one frame reads from outside the program: the polled events, the input and UI
  queries, the write time of the shader source, the shader a compilation of the current
  source gives, and for each slider whether it changed and the value it leaves.
\<close>

record FrameInput =
  exit_event :: bool
  ui_registering_input :: bool
  key_esc :: bool
  key_f1 :: bool
  key_f2 :: bool
  mouse_scroll_delta :: real
  mouse_left_button_down :: bool
  mouse_delta_position :: Vector2
  last_write_time :: FILETIME
  compiled_shader :: ComputeShader
  slider_ambient :: "bool \<times> real"
  slider_lights :: "bool \<times> real"
  slider_roughness :: "bool \<times> real"
  slider_refractive :: "bool \<times> real"
  slider_dof_radius :: "bool \<times> real"
  slider_dof_focal :: "bool \<times> real"

record State =
  config :: Config
  azimuth :: real
  polar :: real
  radius :: real
  spheres :: SpheresBuffer
  rng_state :: rng
  ray_trace_shader :: ComputeShader
  stored_file_time :: FILETIME
  is_running :: bool
  show_ui :: bool
  trace :: "event list"

definition window_width :: "32 word" where "window_width = 1280"
definition window_height :: "32 word" where "window_height = 960"
definition render_target_width :: "32 word" where "render_target_width = window_width div 2"
definition render_target_height :: "32 word" where "render_target_height = window_height div 2"

text \<open>
  The state when the render loop is entered. \<open>stored_file_time\<close> is declared without an
  initialiser, so its first value is the parameter \<open>t0\<close>; the shader is the one compiled at
  startup, the buffer and the generator are those \<open>reset_spheres\<close> left.
\<close>

definition initial_state ::
    "FILETIME \<Rightarrow> ComputeShader \<Rightarrow> SpheresBuffer \<Rightarrow> rng \<Rightarrow> State" where
  "initial_state t0 shader buf g =
     \<lparr> config =
         \<lparr> camera_pos = Vector3 0 0 0,
           step = 0,
           cfg_render_target_width = render_target_width,
           cfg_render_target_height = render_target_height,
           ambient_light_intensity = 15.0,
           sphere_lights_intensity = 1.0,
           metal_roughness = 0.0,
           refractive_index = 1.5,
           dof_radius = 0.0,
           dof_focal_plane = 8.0 \<rparr>,
       azimuth = 0.0,
       polar = PIHALF * 0.5,
       radius = 10.0,
       spheres = buf,
       rng_state = g,
       ray_trace_shader = shader,
       stored_file_time = t0,
       is_running = True,
       show_ui = True,
       trace = [] \<rparr>"

definition reset_rendering :: "State \<Rightarrow> State" where
  "reset_rendering s =
     s\<lparr> config := (config s)\<lparr> step := 1 \<rparr>, trace := trace s @ [ResetRendering] \<rparr>"

definition step_tick :: "State \<Rightarrow> State" where
  "step_tick s =
     s\<lparr> config := (config s)\<lparr> step := step (config s) + 1 \<rparr>, trace := trace s @ [StepTick] \<rparr>"

definition event_loop :: "FrameInput \<Rightarrow> State \<Rightarrow> State" where
  "event_loop inp s = (if exit_event inp then s\<lparr> is_running := False \<rparr> else s)"

definition handle_esc :: "FrameInput \<Rightarrow> State \<Rightarrow> State" where
  "handle_esc inp s = (if key_esc inp then s\<lparr> is_running := False \<rparr> else s)"

definition handle_f1 :: "FrameInput \<Rightarrow> State \<Rightarrow> State" where
  "handle_f1 inp s = (if key_f1 inp then s\<lparr> show_ui := \<not> show_ui s \<rparr> else s)"

text \<open>
  The F2 branch calls \<open>reset_rendering\<close> and then \<open>reset_spheres\<close>, which may never return.
\<close>

definition handle_f2 ::
    "(real \<Rightarrow> real \<Rightarrow> real \<Rightarrow> Vector3) \<Rightarrow> FrameInput \<Rightarrow> State \<Rightarrow> (error + State) option" where
  "handle_f2 hsv_to_rgb inp s =
     (if key_f2 inp then
        (let s1 = reset_rendering s
         in case reset_spheres hsv_to_rgb (spheres s1) (rng_state s1) of
              None \<Rightarrow> None
            | Some (Inl e) \<Rightarrow> Some (Inl e)
            | Some (Inr (buf, g)) \<Rightarrow>
                Some (Inr (s1\<lparr> spheres := buf, rng_state := g,
                               trace := trace s1 @ [ResetSpheres] \<rparr>)))
      else Some (Inr s))"

definition handle_scroll :: "FrameInput \<Rightarrow> State \<Rightarrow> State" where
  "handle_scroll inp s =
     (let scroll_delta = mouse_scroll_delta inp
      in if \<bar>scroll_delta\<bar> > 0
         then reset_rendering (s\<lparr> radius := radius s - mouse_scroll_delta inp * 0.1 \<rparr>)
         else s)"

definition MOUSE_SPEED :: real where "MOUSE_SPEED = 0.003"

text \<open>
  The drag branch. \<open>math::clamp\<close> (\<open>maths.h\<close>) is not part of the sources, and the spec says
  only that the angle is "clamped into (0.02, \<open>\<pi>\<close>)"; it is the parameter \<open>clamp\<close>. The lower
  bound is the \<open>float\<close> literal \<open>0.02f\<close>, the single-precision number \<open>5368709 / 2 ^ 28\<close>; the
  upper bound is \<open>math::PI\<close>.
\<close>

definition drag_update ::
    "(real \<Rightarrow> real \<Rightarrow> real \<Rightarrow> real) \<Rightarrow> Vector2 \<Rightarrow> State \<Rightarrow> State" where
  "drag_update clamp dm s =
     (let az = azimuth s - v2x dm * MOUSE_SPEED;
          po = polar s - v2y dm * MOUSE_SPEED;
          po' = clamp po (5368709 / 268435456) PI
      in reset_rendering (s\<lparr> azimuth := az, polar := po' \<rparr>))"

definition handle_drag ::
    "(real \<Rightarrow> real \<Rightarrow> real \<Rightarrow> real) \<Rightarrow> FrameInput \<Rightarrow> State \<Rightarrow> State" where
  "handle_drag clamp inp s =
     (if mouse_left_button_down inp then drag_update clamp (mouse_delta_position inp) s else s)"

definition react_to_inputs ::
    "(real \<Rightarrow> real \<Rightarrow> real \<Rightarrow> Vector3) \<Rightarrow> (real \<Rightarrow> real \<Rightarrow> real \<Rightarrow> real)
       \<Rightarrow> FrameInput \<Rightarrow> State \<Rightarrow> (error + State) option" where
  "react_to_inputs hsv_to_rgb clamp inp s =
     (if \<not> ui_registering_input inp then
        (case handle_f2 hsv_to_rgb inp (handle_f1 inp (handle_esc inp s)) of
           None \<Rightarrow> None
         | Some (Inl e) \<Rightarrow> Some (Inl e)
         | Some (Inr s1) \<Rightarrow> Some (Inr (handle_drag clamp inp (handle_scroll inp s1))))
      else Some (Inr s))"

definition camera_position :: "real \<Rightarrow> real \<Rightarrow> real \<Rightarrow> Vector3" where
  "camera_position az po rad =
     v3_scale (Vector3 (sin az * sin po) (cos po) (cos az * sin po)) rad"

definition update_camera :: "State \<Rightarrow> State" where
  "update_camera s =
     s\<lparr> config := (config s)\<lparr> camera_pos := camera_position (azimuth s) (polar s) (radius s) \<rparr> \<rparr>"

definition hot_reload :: "FrameInput \<Rightarrow> State \<Rightarrow> State" where
  "hot_reload inp s =
     (let current_file_time = last_write_time inp
      in if CompareFileTime current_file_time (stored_file_time s) \<noteq> 0 then
           (let new_ray_trace_shader = compiled_shader inp;
                s1 = s\<lparr> trace := trace s @ [CompileShader] \<rparr>;
                reload_success = is_ready new_ray_trace_shader;
                s2 = (if reload_success
                      then reset_rendering
                             (s1\<lparr> ray_trace_shader := new_ray_trace_shader,
                                  trace := trace s1 @ [ReleaseShader (ray_trace_shader s1)] \<rparr>)
                      else s1)
            in s2\<lparr> stored_file_time := current_file_time \<rparr>)
         else s)"

text \<open>
  \<open>render_target_width / int(GROUP_SIZE_X)\<close> divides a \<open>uint32_t\<close> by an \<open>int\<close>: the
  division is the unsigned one.
\<close>

definition ray_tracing :: "State \<Rightarrow> State" where
  "ray_tracing s =
     s\<lparr> trace := trace s @
          [RunCompute (render_target_width div word_of_nat GROUP_SIZE_X)
                      (render_target_height div word_of_nat GROUP_SIZE_Y) 1] \<rparr>"

definition ui_rendering :: "FrameInput \<Rightarrow> State \<Rightarrow> State" where
  "ui_rendering inp s =
     (if show_ui s then
        (let changed = fst (slider_ambient inp) \<or> fst (slider_lights inp)
                       \<or> fst (slider_roughness inp) \<or> fst (slider_refractive inp)
                       \<or> fst (slider_dof_radius inp) \<or> fst (slider_dof_focal inp);
             s1 = s\<lparr> config := (config s)
                    \<lparr> ambient_light_intensity := snd (slider_ambient inp),
                      sphere_lights_intensity := snd (slider_lights inp),
                      metal_roughness := snd (slider_roughness inp),
                      refractive_index := snd (slider_refractive inp),
                      dof_radius := snd (slider_dof_radius inp),
                      dof_focal_plane := snd (slider_dof_focal inp) \<rparr> \<rparr>
         in if changed then reset_rendering s1 else s1)
      else s)"

text \<open>One pass of the body of \<open>while (is_running)\<close>.\<close>

definition frame ::
    "(real \<Rightarrow> real \<Rightarrow> real \<Rightarrow> Vector3) \<Rightarrow> (real \<Rightarrow> real \<Rightarrow> real \<Rightarrow> real)
       \<Rightarrow> FrameInput \<Rightarrow> State \<Rightarrow> (error + State) option" where
  "frame hsv_to_rgb clamp inp s =
     (case react_to_inputs hsv_to_rgb clamp inp (event_loop inp (step_tick s)) of
        None \<Rightarrow> None
      | Some (Inl e) \<Rightarrow> Some (Inl e)
      | Some (Inr s1) \<Rightarrow>
          Some (Inr (ui_rendering inp (ray_tracing (hot_reload inp (update_camera s1))))))"

section \<open>Properties of the scene generator\<close>

text \<open>
  The horizontal-plane distance of two spheres, read from the \<open>x\<close> and \<open>z\<close> components of
  their \<open>positions\<close> entries, and the scene invariant: among the first \<open>n\<close> slots, any two
  different non-ground spheres are at least the sum of their radii apart.
\<close>

definition planar_distance :: "Vector4 \<Rightarrow> Vector4 \<Rightarrow> real" where
  "planar_distance a b = v2_length (v2_sub (Vector2 (v4x a) (v4z a)) (Vector2 (v4x b) (v4z b)))"

definition non_overlapping :: "nat \<Rightarrow> Vector4 list \<Rightarrow> bool" where
  "non_overlapping n ps =
     (\<forall>i\<in>{1..<n}. \<forall>j\<in>{1..<n}. i \<noteq> j \<longrightarrow>
        v4w (ps ! i) + v4w (ps ! j) \<le> planar_distance (ps ! i) (ps ! j))"

text \<open>
  The invariant as the code tests it: the distance is compared with the single-precision sum
  of the two radii.
\<close>

definition non_overlapping_float :: "nat \<Rightarrow> Vector4 list \<Rightarrow> bool" where
  "non_overlapping_float n ps =
     (\<forall>i\<in>{1..<n}. \<forall>j\<in>{1..<n}. i \<noteq> j \<longrightarrow>
        fadd (v4w (ps ! i)) (v4w (ps ! j)) \<le> planar_distance (ps ! i) (ps ! j))"

text \<open>
  The bound that follows for the exact sum of the radii: when the sum lies in [1, 2), where
  the unit in the last place is \<open>2 ^ (- 23)\<close>, the distance is below it by at most
  \<open>2 ^ (- 24)\<close>.
\<close>

definition overlap_bounded :: "nat \<Rightarrow> Vector4 list \<Rightarrow> bool" where
  "overlap_bounded n ps =
     (\<forall>i\<in>{1..<n}. \<forall>j\<in>{1..<n}.
        i \<noteq> j \<and> 1 \<le> v4w (ps ! i) + v4w (ps ! j) \<and> v4w (ps ! i) + v4w (ps ! j) < 2 \<longrightarrow>
        v4w (ps ! i) + v4w (ps ! j) - 1 / 2 ^ 24 \<le> planar_distance (ps ! i) (ps ! j))"

text \<open>
  \<open>hits\<close> is the test of the inner loop for slot \<open>k\<close>. \<open>after_attempts k g\<close> is the generator
  after \<open>k\<close> passes of the placement loop, and \<open>rejected\<close> says that the candidate of pass
  \<open>k\<close> collides.
\<close>

definition hits :: "Vector4 list \<Rightarrow> Vector2 \<Rightarrow> real \<Rightarrow> nat \<Rightarrow> bool" where
  "hits ps c s k \<longleftrightarrow>
     v2_length (v2_sub (Vector2 (v4x (ps ! k)) (v4z (ps ! k))) c) < fadd (v4w (ps ! k)) s"

definition after_attempts :: "nat \<Rightarrow> rng \<Rightarrow> rng" where
  "after_attempts k g = ((\<lambda>g. snd (candidate g)) ^^ k) g"

definition rejected :: "Vector4 list \<Rightarrow> nat \<Rightarrow> real \<Rightarrow> rng \<Rightarrow> nat \<Rightarrow> bool" where
  "rejected ps i sphere_size g k \<longleftrightarrow>
     collision_from 1 i ps (fst (candidate (after_attempts k g))) sphere_size"

text \<open>
  Two buffers agree up to \<open>i\<close> when their arrays have the same lengths and the same entries
  in the slots below \<open>i\<close>.
\<close>

definition agree_upto :: "nat \<Rightarrow> SpheresBuffer \<Rightarrow> SpheresBuffer \<Rightarrow> bool" where
  "agree_upto i b1 b2 \<longleftrightarrow>
     length (positions b1) = length (positions b2) \<and>
     length (materials b1) = length (materials b2) \<and>
     (\<forall>k<i. positions b1 ! k = positions b2 ! k \<and> materials b1 ! k = materials b2 ! k)"

text \<open>
  The material code that one pass of the loop body leaves in slot \<open>i\<close>, the \<open>w\<close> component
  of \<open>materials[i]\<close>, and the material that a value \<open>v\<close> of the draw over the table selects,
  by the interval of \<open>v\<close>.
\<close>

definition stored_material ::
    "(real \<Rightarrow> real \<Rightarrow> real \<Rightarrow> Vector3) \<Rightarrow> nat \<Rightarrow> SpheresBuffer \<Rightarrow> rng \<Rightarrow> real option" where
  "stored_material hsv_to_rgb i buf g =
     (case sphere_body hsv_to_rgb i buf g of
        Some (Inr (buf', g')) \<Rightarrow> Some (v4w (materials buf' ! i))
      | _ \<Rightarrow> None)"

definition material_of_draw :: "real \<Rightarrow> Material" where
  "material_of_draw v =
     (if v < 2 then LAMBERT
      else if v < 4 then LAMBERT_CHECKERBOARD
      else if v < 5 then METAL
      else if v < 6 then DIELECTRIC
      else LIGHT)"

section \<open>Properties of a frame\<close>

text \<open>
  The events a computation adds to the trace, the events of one frame, the test for a
  \<open>graphics::run_compute\<close> event, and the order "no reset after the tick". \<open>quiet\<close> relates two
  states when the events in between contain neither the tick nor a dispatch and \<open>step\<close> is
  1 after a reset and unchanged otherwise.
\<close>

definition frame_events :: "State \<Rightarrow> State \<Rightarrow> event list" where
  "frame_events s s' = drop (length (trace s)) (trace s')"

definition frame_trace ::
    "(real \<Rightarrow> real \<Rightarrow> real \<Rightarrow> Vector3) \<Rightarrow> (real \<Rightarrow> real \<Rightarrow> real \<Rightarrow> real)
       \<Rightarrow> FrameInput \<Rightarrow> State \<Rightarrow> event list option" where
  "frame_trace hsv_to_rgb clamp inp s =
     (case frame hsv_to_rgb clamp inp s of
        Some (Inr s') \<Rightarrow> Some (frame_events s s')
      | _ \<Rightarrow> None)"

text \<open>The eye position that a frame leaves in \<open>config.camera_pos\<close>.\<close>

definition frame_camera ::
    "(real \<Rightarrow> real \<Rightarrow> real \<Rightarrow> Vector3) \<Rightarrow> (real \<Rightarrow> real \<Rightarrow> real \<Rightarrow> real)
       \<Rightarrow> FrameInput \<Rightarrow> State \<Rightarrow> Vector3 option" where
  "frame_camera hsv_to_rgb clamp inp s =
     (case frame hsv_to_rgb clamp inp s of
        Some (Inr s') \<Rightarrow> Some (camera_pos (config s'))
      | _ \<Rightarrow> None)"

fun is_dispatch :: "event \<Rightarrow> bool" where
  "is_dispatch (RunCompute gx gy gz) = True"
| "is_dispatch _ = False"

definition resets_before_tick :: "event list \<Rightarrow> bool" where
  "resets_before_tick evs \<longleftrightarrow> ResetRendering \<notin> set (dropWhile (\<lambda>e. e \<noteq> StepTick) evs)"

definition quiet :: "State \<Rightarrow> State \<Rightarrow> bool" where
  "quiet s s' \<longleftrightarrow>
     trace s' = trace s @ frame_events s s' \<and>
     StepTick \<notin> set (frame_events s s') \<and>
     filter is_dispatch (frame_events s s') = [] \<and>
     step (config s') = (if ResetRendering \<in> set (frame_events s s') then 1 else step (config s))"

section \<open>Concrete inputs\<close>

text \<open>
  A colour conversion for the parameter \<open>hsv_to_rgb\<close>, a clamp that puts a value outside the
  bounds on the nearer bound for the parameter \<open>clamp\<close>, the generator whose every draw is 0,
  a frame input in which nothing happens and variants of it, and a state at the entry of
  the render loop.
\<close>

definition grey_of_value :: "real \<Rightarrow> real \<Rightarrow> real \<Rightarrow> Vector3" where
  "grey_of_value h s v = Vector3 v v v"

definition saturating_clamp :: "real \<Rightarrow> real \<Rightarrow> real \<Rightarrow> real" where
  "saturating_clamp v lo hi = (if v < lo then lo else if hi < v then hi else v)"

definition zero_source :: rng where
  "zero_source = sconst 0"

definition idle_input :: FrameInput where
  "idle_input =
     \<lparr> exit_event = False, ui_registering_input = False,
       key_esc = False, key_f1 = False, key_f2 = False,
       mouse_scroll_delta = 0, mouse_left_button_down = False,
       mouse_delta_position = Vector2 0 0,
       last_write_time = 0, compiled_shader = ComputeShader 1 True,
       slider_ambient = (False, 15), slider_lights = (False, 1),
       slider_roughness = (False, 0), slider_refractive = (False, 1.5),
       slider_dof_radius = (False, 0), slider_dof_focal = (False, 8) \<rparr>"

definition scroll_input :: FrameInput where
  "scroll_input = idle_input\<lparr> mouse_scroll_delta := 1 \<rparr>"

definition failed_reload_input :: FrameInput where
  "failed_reload_input =
     idle_input\<lparr> last_write_time := 7, compiled_shader := ComputeShader 1 False \<rparr>"

definition first_frame_input :: FrameInput where
  "first_frame_input = idle_input\<lparr> last_write_time := 7 \<rparr>"

definition start_state :: "FILETIME \<Rightarrow> State" where
  "start_state t0 =
     initial_state t0 (ComputeShader 0 True) (initial_spheres (Vector4 0 0 0 0)) zero_source"

text \<open>The same state with the camera on the positive \<open>z\<close> axis, at distance 10.\<close>

definition side_view_state :: State where
  "side_view_state = (start_state 0)\<lparr> azimuth := 0, polar := pi / 2, radius := 10 \<rparr>"

text \<open>
  A generator on which all 74 spheres are placed at the first attempt. Every sphere has the
  radius 1/2 and the material METAL. The centres lie on six rays from the centre of the
  circle: the four axis directions and the directions (3/5, 4/5) and (3/5, -4/5).
  \<open>ray_direction\<close> is five times the (sine, cosine) of the ray's angle, \<open>ray_angle_draw\<close> the
  unit draw that gives the angle; a layout entry \<open>(k, d)\<close> is the point at distance \<open>d\<close> on
  ray \<open>k\<close>. \<open>apart\<close> compares the squared distance of two layout points, scaled by 25,
  with the squared sum of the radii.
\<close>

definition ray_angle :: "nat \<Rightarrow> real" where
  "ray_angle k =
     (if k = 0 then 0 else if k = 1 then pi / 2 else if k = 2 then pi
      else if k = 3 then pi / 2 + pi else if k = 4 then arcsin (3 / 5)
      else pi - arcsin (3 / 5))"

definition ray_angle_draw :: "nat \<Rightarrow> real" where
  "ray_angle_draw k = ray_angle k / PI2"

definition ray_direction :: "nat \<Rightarrow> int \<times> int" where
  "ray_direction k =
     (if k = 0 then (0, 5) else if k = 1 then (5, 0) else if k = 2 then (0, - 5)
      else if k = 3 then (- 5, 0) else if k = 4 then (3, 4)
      else (3, - 4))"

fun sphere_draws :: "(nat \<times> int) list \<Rightarrow> rng \<Rightarrow> rng" where
  "sphere_draws [] g = g"
| "sphere_draws ((k, d) # rest) g =
     0 ## ray_angle_draw k ## (real_of_int d / 15) ## (4 / 7) ## sphere_draws rest g"

definition spread_layout :: "(nat \<times> int) list" where
  "spread_layout =
     (0, 0) # concat (map (\<lambda>k. map (\<lambda>d. (k, d)) [1..14]) [0, 1, 2, 3])
     @ map (\<lambda>d. (4, d)) [2..14] @ map (\<lambda>d. (5, d)) [2..5]"

definition layout_sphere :: "nat \<times> int \<Rightarrow> Vector4" where
  "layout_sphere p =
     Vector4 (real_of_int (fst (ray_direction (fst p)) * snd p) / 5 - 6) (1 / 2)
             (real_of_int (snd (ray_direction (fst p)) * snd p) / 5) (1 / 2)"

definition apart :: "nat \<times> int \<Rightarrow> nat \<times> int \<Rightarrow> bool" where
  "apart p q \<longleftrightarrow>
     25 \<le> (fst (ray_direction (fst q)) * snd q - fst (ray_direction (fst p)) * snd p)\<^sup>2
        + (snd (ray_direction (fst q)) * snd q - snd (ray_direction (fst p)) * snd p)\<^sup>2"

fun all_apart :: "(nat \<times> int) list \<Rightarrow> bool" where
  "all_apart [] = True"
| "all_apart (p # ps) = (list_all (apart p) ps \<and> all_apart ps)"

definition spread_source :: rng where
  "spread_source = sphere_draws spread_layout zero_source"

definition spread_scene :: SpheresBuffer where
  "spread_scene =
     \<lparr> positions = Vector4 0 (- 1000) 0 1000 # map layout_sphere spread_layout,
       materials = Vector4 0.15 0.15 0.15 (real (material_code LAMBERT))
                   # replicate 74 (Vector4 0.9 0.9 0.9 (real (material_code METAL))) \<rparr>"

text \<open>
  A generator whose first two spheres touch within rounding. The first sphere has the radius
  \<open>15/16 + 2 ^ (- 24)\<close> and its centre at the centre of the circle; the second has the radius
  \<open>15/16\<close> and its centre on ray 0 at the distance \<open>15/8\<close>. Every draw, radius and coordinate
  of the two is a single-precision number, and the sine 0 and cosine 1 of the angle 0, the
  products, the difference and the length \<open>15/8\<close> are exact in single precision. The other 72
  spheres have the radius 1/2 and lie on the six rays at multiples of \<open>17/16\<close>: a layout entry
  \<open>(k, d)\<close> is here the point at distance \<open>d/16\<close> on ray \<open>k\<close>. \<open>fine_apart\<close> says that two such
  points are at least \<open>17/16\<close> apart and \<open>fine_clear\<close> that a point is at least \<open>3/2\<close> from the
  centres of the first two spheres, both on squared distances scaled by \<open>80\<^sup>2\<close>.
  \<open>tight_after_first\<close> and \<open>tight_after_second\<close> are the buffer after one and two passes of
  the loop body.
\<close>

definition fine_point :: "nat \<times> int \<Rightarrow> Vector2" where
  "fine_point p =
     Vector2 (real_of_int (fst (ray_direction (fst p)) * snd p) / 80 - 6)
             (real_of_int (snd (ray_direction (fst p)) * snd p) / 80)"

definition fine_sphere :: "nat \<times> int \<Rightarrow> Vector4" where
  "fine_sphere p = Vector4 (v2x (fine_point p)) (1 / 2) (v2y (fine_point p)) (1 / 2)"

fun fine_draws :: "(nat \<times> int) list \<Rightarrow> rng \<Rightarrow> rng" where
  "fine_draws [] g = g"
| "fine_draws ((k, d) # rest) g =
     0 ## ray_angle_draw k ## (real_of_int d / 240) ## (5 / 8) ## fine_draws rest g"

definition fine_apart :: "nat \<times> int \<Rightarrow> nat \<times> int \<Rightarrow> bool" where
  "fine_apart p q \<longleftrightarrow>
     7225 \<le> (fst (ray_direction (fst q)) * snd q - fst (ray_direction (fst p)) * snd p)\<^sup>2
        + (snd (ray_direction (fst q)) * snd q - snd (ray_direction (fst p)) * snd p)\<^sup>2"

fun all_fine_apart :: "(nat \<times> int) list \<Rightarrow> bool" where
  "all_fine_apart [] = True"
| "all_fine_apart (p # ps) = (list_all (fine_apart p) ps \<and> all_fine_apart ps)"

definition fine_clear :: "nat \<times> int \<Rightarrow> bool" where
  "fine_clear p \<longleftrightarrow>
     14400 \<le> (fst (ray_direction (fst p)) * snd p)\<^sup>2 + (snd (ray_direction (fst p)) * snd p)\<^sup>2
   \<and> 14400 \<le> (fst (ray_direction (fst p)) * snd p)\<^sup>2
            + (150 - snd (ray_direction (fst p)) * snd p)\<^sup>2"

definition tight_layout :: "(nat \<times> int) list" where
  "tight_layout =
     map (\<lambda>m. (0, 17 * m)) [4..14]
     @ concat (map (\<lambda>k. map (\<lambda>m. (k, 17 * m)) [2..14]) [1, 2, 3])
     @ map (\<lambda>m. (4, 17 * m)) [3..14] @ map (\<lambda>m. (5, 17 * m)) [2..11]"

definition tight_first :: Vector4 where
  "tight_first = Vector4 (- 6) (15 / 16 + 1 / 2 ^ 24) 0 (15 / 16 + 1 / 2 ^ 24)"

definition tight_second :: Vector4 where
  "tight_second = Vector4 (- 6) (15 / 16) (15 / 8) (15 / 16)"

definition tight_source :: rng where
  "tight_source =
     (7 / 8 + 1 / 2 ^ 23) ## 0 ## 0 ## (5 / 8)
     ## (7 / 8) ## 0 ## (1 / 8) ## (5 / 8)
     ## fine_draws tight_layout zero_source"

definition tight_scene :: SpheresBuffer where
  "tight_scene =
     \<lparr> positions = Vector4 0 (- 1000) 0 1000 # tight_first # tight_second
                   # map fine_sphere tight_layout,
       materials = Vector4 0.15 0.15 0.15 (real (material_code LAMBERT))
                   # replicate 74 (Vector4 0.9 0.9 0.9 (real (material_code METAL))) \<rparr>"

definition tight_after_first :: "Vector4 \<Rightarrow> SpheresBuffer" where
  "tight_after_first v =
     \<lparr> positions = Vector4 0 (- 1000) 0 1000 # tight_first # replicate 73 v,
       materials = Vector4 0.15 0.15 0.15 0 # Vector4 0.9 0.9 0.9 2 # replicate 73 v \<rparr>"

definition tight_after_second :: "Vector4 \<Rightarrow> SpheresBuffer" where
  "tight_after_second v =
     \<lparr> positions = Vector4 0 (- 1000) 0 1000 # tight_first # tight_second # replicate 72 v,
       materials = Vector4 0.15 0.15 0.15 0 # Vector4 0.9 0.9 0.9 2 # Vector4 0.9 0.9 0.9 2
                   # replicate 72 v \<rparr>"

section \<open>The placement loop\<close>

declare collision_from.simps [simp del]

declare spheres_loop.simps [simp del]

lemma float_round_binade_0:
  assumes "1 \<le> v" "v < 2"
  shows "float_round v = of_int (round_to_even (v * 2 ^ 23)) / 2 ^ 23"
proof -
  have "0 \<le> log 2 v" "log 2 v < 1" using assms by simp_all
  then have "\<lfloor>log 2 v\<rfloor> = 0" by (simp add: floor_eq_iff)
  then have e: "max \<lfloor>log 2 \<bar>v\<bar>\<rfloor> (- 126) = 0" using assms by simp
  have "(2::real) powr (- 23) = 1 / 2 ^ 23"
    by (simp add: powr_minus_divide)
  then have u: "(2::real) powr (of_int 0 - 23) = 1 / 2 ^ 23" by simp
  have "v \<noteq> 0" using assms by simp
  then have "float_round v
      = of_int (round_to_even (v / (2 powr (of_int 0 - 23)))) * 2 powr (of_int 0 - 23)"
    unfolding float_round_def Let_def e by simp
  also have "\<dots> = of_int (round_to_even (v * 2 ^ 23)) / 2 ^ 23"
    unfolding u by simp
  finally show ?thesis .
qed

lemma fadd_commute: "fadd a b = fadd b a"
  by (simp add: fadd_def add.commute)

lemma fadd_half_half: "fadd (1 / 2) (1 / 2) = 1"
  by (simp add: fadd_def float_round_binade_0 round_to_even_def)

lemma fadd_tight: "fadd (15 / 16 + 1 / 2 ^ 24) (15 / 16) = 15 / 8"
proof -
  have "fadd (15 / 16 + 1 / 2 ^ 24) (15 / 16) = float_round (31457281 / 16777216)"
    by (simp add: fadd_def)
  also have "\<dots> = 15 / 8"
    by (subst float_round_binade_0) (simp_all add: round_to_even_def)
  finally show ?thesis .
qed

lemma fadd_23:
  "fadd (15 / 16 + 1 / 2 ^ 24) (1 / 2) = 23 / 16"
  "fadd (15 / 16) (1 / 2) = 23 / 16"
proof -
  have "fadd (15 / 16 + 1 / 2 ^ 24) (1 / 2) = float_round (24117249 / 16777216)"
    by (simp add: fadd_def)
  also have "\<dots> = 23 / 16"
    by (subst float_round_binade_0) (simp_all add: round_to_even_def)
  finally show "fadd (15 / 16 + 1 / 2 ^ 24) (1 / 2) = 23 / 16" .
  have "fadd (15 / 16) (1 / 2) = float_round (23 / 16)"
    by (simp add: fadd_def)
  also have "\<dots> = 23 / 16"
    by (subst float_round_binade_0) (simp_all add: round_to_even_def)
  finally show "fadd (15 / 16) (1 / 2) = 23 / 16" .
qed

lemma fadd_tight_numeral:
  "fadd (15728641 / 16777216) (15 / 16) = 15 / 8"
  "fadd (15728641 / 16777216) (1 / 2) = 23 / 16"
  using fadd_tight fadd_23(1) by simp_all

lemma round_to_even_lower: "y - 1 / 2 \<le> of_int (round_to_even y)"
proof -
  have "y - of_int \<lfloor>y\<rfloor> < 1" by linarith
  then show ?thesis
    by (simp add: round_to_even_def Let_def)
qed

lemma fadd_lower:
  assumes "1 \<le> a + b" "a + b < 2"
  shows "a + b - 1 / 2 ^ 24 \<le> fadd a b"
proof -
  have "fadd a b = of_int (round_to_even ((a + b) * 2 ^ 23)) / 2 ^ 23"
    unfolding fadd_def by (rule float_round_binade_0[OF assms])
  moreover have "((a + b) * 2 ^ 23 - 1 / 2) / 2 ^ 23
      \<le> of_int (round_to_even ((a + b) * 2 ^ 23)) / 2 ^ 23"
    by (rule divide_right_mono[OF round_to_even_lower]) simp
  moreover have "((a + b) * 2 ^ 23 - 1 / 2) / 2 ^ 23 = a + b - 1 / 2 ^ 24"
    by (simp add: diff_divide_distrib)
  ultimately show ?thesis by simp
qed

lemma planar_distance_sym: "planar_distance a b = planar_distance b a"
  by (simp add: planar_distance_def v2_length_def v2_sub_def algebra_simps)

lemma collision_from_step:
  "collision_from j i ps c s \<longleftrightarrow> j < i \<and> (hits ps c s j \<or> collision_from (j + 1) i ps c s)"
  by (subst collision_from.simps) (simp add: Let_def hits_def)

lemma collision_from_iff:
  "collision_from j i ps c s \<longleftrightarrow> (\<exists>k. j \<le> k \<and> k < i \<and> hits ps c s k)"
proof (induction j i ps c s rule: collision_from.induct)
  case (1 j i ps c s)
  show ?case
  proof (cases "j < i")
    case False
    then show ?thesis by (subst collision_from_step) auto
  next
    case True
    show ?thesis
    proof (cases "hits ps c s j")
      case True
      with \<open>j < i\<close> have "collision_from j i ps c s"
        by (subst collision_from_step) simp
      moreover have "\<exists>k. j \<le> k \<and> k < i \<and> hits ps c s k" using True \<open>j < i\<close> by blast
      ultimately show ?thesis by blast
    next
      case False
      with \<open>j < i\<close> have eq: "collision_from j i ps c s = collision_from (j + 1) i ps c s"
        by (subst collision_from_step) simp
      have ih: "collision_from (j + 1) i ps c s \<longleftrightarrow> (\<exists>k. j + 1 \<le> k \<and> k < i \<and> hits ps c s k)"
        using 1 \<open>j < i\<close> False by (simp add: Let_def hits_def)
      have "(\<exists>k. j + 1 \<le> k \<and> k < i \<and> hits ps c s k) \<longleftrightarrow> (\<exists>k. j \<le> k \<and> k < i \<and> hits ps c s k)"
      proof
        assume "\<exists>k. j + 1 \<le> k \<and> k < i \<and> hits ps c s k"
        then obtain k where "j + 1 \<le> k" "k < i" "hits ps c s k" by blast
        then have "j \<le> k" by simp
        with \<open>k < i\<close> \<open>hits ps c s k\<close> show "\<exists>k. j \<le> k \<and> k < i \<and> hits ps c s k" by blast
      next
        assume "\<exists>k. j \<le> k \<and> k < i \<and> hits ps c s k"
        then obtain k where k: "j \<le> k" "k < i" "hits ps c s k" by blast
        with False have "k \<noteq> j" by auto
        with k have "j + 1 \<le> k" by simp
        with k show "\<exists>k. j + 1 \<le> k \<and> k < i \<and> hits ps c s k" by blast
      qed
      with ih eq show ?thesis by simp
    qed
  qed
qed

lemma after_attempts_0: "after_attempts 0 g = g"
  by (simp add: after_attempts_def)

lemma after_attempts_Suc: "after_attempts (Suc k) g = after_attempts k (snd (candidate g))"
  by (simp add: after_attempts_def funpow_Suc_right del: funpow.simps)

lemma rejected_Suc: "rejected ps i s g (Suc k) = rejected ps i s (snd (candidate g)) k"
  by (simp add: rejected_def after_attempts_Suc)

lemma place_sphere_first_accept:
  "\<not> rejected ps i s g k \<Longrightarrow> (\<And>m. m < k \<Longrightarrow> rejected ps i s g m) \<Longrightarrow>
   place_sphere ps i s g = Some (candidate (after_attempts k g))"
proof (induction k arbitrary: g)
  case 0
  then show ?case
    by (subst place_sphere.simps) (simp add: rejected_def after_attempts_0)
next
  case (Suc k)
  have r0: "rejected ps i s g 0" using Suc.prems(2) by simp
  have "place_sphere ps i s g = place_sphere ps i s (snd (candidate g))"
    using r0 by (subst place_sphere.simps) (simp add: rejected_def after_attempts_0)
  also have "\<dots> = Some (candidate (after_attempts k (snd (candidate g))))"
  proof (rule Suc.IH)
    show "\<not> rejected ps i s (snd (candidate g)) k"
      using Suc.prems(1) by (simp add: rejected_Suc)
  next
    fix m assume "m < k"
    then have "rejected ps i s g (Suc m)" using Suc.prems(2) by simp
    then show "rejected ps i s (snd (candidate g)) m" by (simp add: rejected_Suc)
  qed
  finally show ?case by (simp add: after_attempts_Suc)
qed

lemma place_sphere_Some_accepting:
  assumes "place_sphere ps i s g = Some r"
  shows "\<exists>k. \<not> rejected ps i s g k"
proof -
  have step: "\<exists>k. \<not> rejected ps i s g k"
    if ih: "\<And>ps i s g r. place ps i s g = Some r \<Longrightarrow> \<exists>k. \<not> rejected ps i s g k"
    and eq: "(if collision_from 1 i ps (fst (candidate g)) s
              then place ps i s (snd (candidate g)) else Some (candidate g)) = Some r"
    for place ps i s g and r :: "Vector2 \<times> rng"
  proof (cases "collision_from 1 i ps (fst (candidate g)) s")
    case True
    with eq have "place ps i s (snd (candidate g)) = Some r" by simp
    from ih[OF this] obtain k where "\<not> rejected ps i s (snd (candidate g)) k" by blast
    then have "\<not> rejected ps i s g (Suc k)" by (simp add: rejected_Suc)
    then show ?thesis by blast
  next
    case False
    then have "\<not> rejected ps i s g 0" by (simp add: rejected_def after_attempts_0)
    then show ?thesis by blast
  qed
  show ?thesis
    by (rule place_sphere.raw_induct
          [where P = "\<lambda>ps i s g r. \<exists>k. \<not> rejected ps i s g k", OF step assms])
qed

lemma place_sphere_never:
  assumes "\<And>k. rejected ps i s g k"
  shows "place_sphere ps i s g = None"
proof (rule ccontr)
  assume "place_sphere ps i s g \<noteq> None"
  then obtain r where "place_sphere ps i s g = Some r" by auto
  from place_sphere_Some_accepting[OF this] assms show False by blast
qed

lemma place_sphere_char:
  "place_sphere ps i s g =
     (if \<exists>k. \<not> rejected ps i s g k
      then Some (candidate (after_attempts (LEAST k. \<not> rejected ps i s g k) g))
      else None)"
proof (cases "\<exists>k. \<not> rejected ps i s g k")
  case True
  let ?k = "LEAST k. \<not> rejected ps i s g k"
  have a: "\<not> rejected ps i s g ?k" using True by (metis (mono_tags, lifting) LeastI_ex)
  have b: "\<And>m. m < ?k \<Longrightarrow> rejected ps i s g m" using not_less_Least by blast
  from place_sphere_first_accept[OF a b] True show ?thesis by simp
next
  case False
  then show ?thesis using place_sphere_never[of ps i s g] by simp
qed

lemma place_sphere_accepts:
  assumes "place_sphere ps i s g = Some (p, g')"
  shows "\<not> collision_from 1 i ps p s"
proof -
  have ex: "\<exists>k. \<not> rejected ps i s g k"
  proof (rule ccontr)
    assume "\<not> (\<exists>k. \<not> rejected ps i s g k)"
    then have "place_sphere ps i s g = None" by (subst place_sphere_char) simp
    with assms show False by simp
  qed
  let ?k = "LEAST k. \<not> rejected ps i s g k"
  have a: "\<not> rejected ps i s g ?k" using ex by (metis (mono_tags, lifting) LeastI_ex)
  have "candidate (after_attempts ?k g) = (p, g')"
    using assms ex by (subst (asm) place_sphere_char) simp
  with a show ?thesis by (simp add: rejected_def)
qed

lemma place_first_sphere:
  "place_sphere ps 1 sz g = Some (candidate g)"
proof -
  have "\<not> collision_from 1 1 ps c sz" for c
    by (subst collision_from.simps) simp
  then show ?thesis by (subst place_sphere.simps) simp
qed

lemma zero_source_simps [simp]: "shd zero_source = 0" "stl zero_source = zero_source"
  by (simp_all add: zero_source_def)

lemma candidate_zero_source: "candidate zero_source = (Vector2 (- 6) 0, zero_source)"
  by (simp add: candidate_def random_uniform_def Let_def)

lemma after_attempts_zero_source: "after_attempts k zero_source = zero_source"
  by (induction k) (simp_all add: after_attempts_0 after_attempts_Suc candidate_zero_source)

lemma sphere_body_1_zero_source:
  assumes "1 < length (positions buf)"
  shows "\<exists>buf1. sphere_body h 1 buf zero_source = Some (Inr (buf1, zero_source))
           \<and> positions buf1 ! 1 = Vector4 (- 6) (1 / 2) 0 (1 / 2)"
proof -
  have "\<not> collision_from 1 1 (positions buf) c (1 / 2)" for c
    by (subst collision_from.simps) simp
  then have "place_sphere (positions buf) 1 (1 / 2) zero_source = Some (candidate zero_source)"
    by (subst place_sphere.simps) simp
  moreover have "pick_material 0 = Inr LAMBERT"
    by (simp add: pick_material_def trunc_int_def index_to_mat_def)
  ultimately show ?thesis using assms
    by (simp add: sphere_body_def random_uniform_def candidate_zero_source Let_def)
qed

lemma place_sphere_2_zero_source:
  assumes "ps ! 1 = Vector4 (- 6) (1 / 2) 0 (1 / 2)"
  shows "place_sphere ps 2 (1 / 2) zero_source = None"
proof (rule place_sphere_never)
  fix k
  have "hits ps (Vector2 (- 6) 0) (1 / 2) 1"
    using assms by (simp add: hits_def v2_length_def v2_sub_def fadd_half_half)
  then have "collision_from 1 2 ps (Vector2 (- 6) 0) (1 / 2)"
    by (subst collision_from_iff) (rule exI[of _ 1], simp)
  then show "rejected ps 2 (1 / 2) zero_source k"
    by (simp add: rejected_def after_attempts_zero_source candidate_zero_source)
qed

text \<open>
  C2, as the code has it: the placement loop has no attempt bound and no failure outcome. It
  returns the first candidate that collides with no sphere placed before, after however many
  rejected candidates, and it never returns when every candidate drawn from the random source
  collides.
\<close>

theorem place_sphere_first_accepted:
  "place_sphere ps i sphere_size g =
     (if \<exists>k. \<not> rejected ps i sphere_size g k
      then Some (candidate (after_attempts (LEAST k. \<not> rejected ps i sphere_size g k) g))
      else None)"
  by (rule place_sphere_char)

theorem place_sphere_first_accepted_witness:
  "place_sphere (positions (initial_spheres (Vector4 0 0 0 0))) 1 (1 / 2) zero_source
     = Some (Vector2 (- 6) 0, zero_source)"
proof -
  let ?ps = "positions (initial_spheres (Vector4 0 0 0 0))"
  have "\<not> collision_from 1 1 ?ps c (1 / 2)" for c
    by (subst collision_from.simps) simp
  then have nr: "\<not> rejected ?ps 1 (1 / 2) zero_source 0"
    by (simp add: rejected_def)
  then have least: "(LEAST k. \<not> rejected ?ps 1 (1 / 2) zero_source k) = 0"
    by (rule Least_eq_0)
  from nr have "\<exists>k. \<not> rejected ?ps 1 (1 / 2) zero_source k" by blast
  with place_sphere_first_accepted[of ?ps 1 "1 / 2" zero_source] least
  show ?thesis by (simp add: after_attempts_0 candidate_zero_source)
qed

text \<open>
  On the generator whose every draw is 0 the second sphere never finds a place: every
  candidate is the centre of the first sphere. The scene generation does not return.
\<close>

theorem reset_spheres_never_returns:
  "reset_spheres grey_of_value (initial_spheres (Vector4 0 0 0 0)) zero_source = None"
proof -
  have len: "1 < length (positions (initial_spheres (Vector4 0 0 0 0)))"
    by (simp add: initial_spheres_def SPHERES_COUNT_def)
  from sphere_body_1_zero_source[OF len, of grey_of_value] obtain buf1 where
    b1: "sphere_body grey_of_value 1 (initial_spheres (Vector4 0 0 0 0)) zero_source
           = Some (Inr (buf1, zero_source))" and
    p1: "positions buf1 ! 1 = Vector4 (- 6) (1 / 2) 0 (1 / 2)" by blast
  have b2: "sphere_body grey_of_value 2 buf1 zero_source = None"
    using place_sphere_2_zero_source[OF p1]
    by (simp add: sphere_body_def random_uniform_def)
  have "spheres_loop grey_of_value SPHERES_COUNT 2 buf1 zero_source = None"
    by (subst spheres_loop.simps) (simp add: b2 SPHERES_COUNT_def)
  then show ?thesis
    unfolding reset_spheres_def
    by (subst spheres_loop.simps) (simp add: b1 SPHERES_COUNT_def del: One_nat_def)
qed

section \<open>The generated scene\<close>

lemma sphere_body_Inr:
  assumes "sphere_body h i buf g = Some (Inr (buf', g'))"
  shows "\<exists>p sz. positions buf' = (positions buf)[i := Vector4 (v2x p) sz (v2y p) sz]
           \<and> \<not> collision_from 1 i (positions buf) p sz"
proof -
  from assms obtain sz g1 p g2 where
    placed: "place_sphere (positions buf) i sz g1 = Some (p, g2)" and
    upd: "positions buf' = (positions buf)[i := Vector4 (v2x p) sz (v2y p) sz]"
    by (auto simp: sphere_body_def Let_def split: prod.splits option.splits sum.splits)
  from place_sphere_accepts[OF placed] upd show ?thesis by blast
qed

lemma non_overlapping_float_step:
  assumes inv: "non_overlapping_float i ps"
    and free: "\<not> collision_from 1 i ps p sz"
    and i: "1 \<le> i" "i < length ps"
  shows "non_overlapping_float (i + 1) (ps[i := Vector4 (v2x p) sz (v2y p) sz])"
proof -
  let ?new = "Vector4 (v2x p) sz (v2y p) sz"
  let ?ps = "ps[i := ?new]"
  have old: "?ps ! a = ps ! a" if "a < i" for a using that by simp
  have new: "?ps ! i = ?new" using i by simp
  have far: "fadd (v4w (ps ! b)) sz \<le> planar_distance (ps ! b) ?new" if "1 \<le> b" "b < i" for b
  proof -
    have "\<not> hits ps p sz b" using free that by (auto simp: collision_from_iff)
    then show ?thesis by (cases p) (simp add: hits_def planar_distance_def)
  qed
  show ?thesis
    unfolding non_overlapping_float_def
  proof (intro ballI impI)
    fix a b assume a: "a \<in> {1..<i + 1}" and b: "b \<in> {1..<i + 1}" and ne: "a \<noteq> b"
    consider "a < i" "b < i" | "a = i" "b < i" | "a < i" "b = i"
      using a b ne by force
    then show "fadd (v4w (?ps ! a)) (v4w (?ps ! b)) \<le> planar_distance (?ps ! a) (?ps ! b)"
    proof cases
      case 1
      with inv a b ne show ?thesis by (simp add: non_overlapping_float_def old)
    next
      case 2
      with far[of b] b show ?thesis
        by (simp add: old new planar_distance_sym[of ?new] fadd_commute[of sz])
    next
      case 3
      with far[of a] a show ?thesis by (simp add: old new)
    qed
  qed
qed

lemma sphere_body_length:
  assumes "sphere_body h i buf g = Some (Inr (buf', g'))"
  shows "length (positions buf') = length (positions buf)
       \<and> length (materials buf') = length (materials buf)"
  using assms
  by (auto simp: sphere_body_def Let_def split: prod.splits option.splits sum.splits)

lemma spheres_loop_length:
  "spheres_loop h n i buf g = Some (Inr (buf', g')) \<Longrightarrow>
   length (positions buf') = length (positions buf)
   \<and> length (materials buf') = length (materials buf)"
proof (induction h n i buf g rule: spheres_loop.induct)
  case (1 h n i buf g)
  show ?case
  proof (cases "i < n")
    case False
    with 1(2) show ?thesis by (subst (asm) spheres_loop.simps) simp
  next
    case True
    from 1(2) True obtain buf1 g1 where
      body: "sphere_body h i buf g = Some (Inr (buf1, g1))" and
      rest: "spheres_loop h n (i + 1) buf1 g1 = Some (Inr (buf', g'))"
      by (subst (asm) spheres_loop.simps)
         (auto split: option.splits sum.splits prod.splits)
    from 1(1)[OF True body refl refl rest] sphere_body_length[OF body]
    show ?thesis by simp
  qed
qed

lemma spheres_loop_non_overlapping_float:
  "spheres_loop h n i buf g = Some (Inr (buf', g')) \<Longrightarrow> 1 \<le> i \<Longrightarrow> i \<le> n \<Longrightarrow>
   n \<le> length (positions buf) \<Longrightarrow> non_overlapping_float i (positions buf) \<Longrightarrow>
   non_overlapping_float n (positions buf')"
proof (induction h n i buf g rule: spheres_loop.induct)
  case (1 h n i buf g)
  show ?case
  proof (cases "i < n")
    case False
    with 1(2) have "buf' = buf" by (subst (asm) spheres_loop.simps) simp
    with 1(4,6) False show ?thesis by simp
  next
    case True
    from 1(2) True obtain buf1 g1 where
      body: "sphere_body h i buf g = Some (Inr (buf1, g1))" and
      rest: "spheres_loop h n (i + 1) buf1 g1 = Some (Inr (buf', g'))"
      by (subst (asm) spheres_loop.simps)
         (auto split: option.splits sum.splits prod.splits)
    from sphere_body_Inr[OF body] obtain p sz where
      ps1: "positions buf1 = (positions buf)[i := Vector4 (v2x p) sz (v2y p) sz]" and
      free: "\<not> collision_from 1 i (positions buf) p sz" by blast
    have "non_overlapping_float (i + 1) (positions buf1)"
      unfolding ps1 using non_overlapping_float_step[OF 1(6) free 1(3)] True 1(5) by simp
    moreover have "n \<le> length (positions buf1)" using ps1 1(5) by simp
    ultimately show ?thesis
      using 1(1)[OF True body refl refl rest] True by simp
  qed
qed

lemma spheres_loop_step:
  assumes "i < n" "sphere_body h i buf g = Some (Inr (buf', g'))"
  shows "spheres_loop h n i buf g = spheres_loop h n (i + 1) buf' g'"
  using assms by (subst spheres_loop.simps) simp

lemma spheres_loop_done: "spheres_loop h n n buf g = Some (Inr (buf, g))"
  by (subst spheres_loop.simps) simp

subsection \<open>A generator that fills the scene\<close>

lemma spread_layout_length: "length spread_layout = 74"
  by code_simp

lemma spread_layout_rays: "list_all (\<lambda>p. fst p < 6) spread_layout"
  by code_simp

lemma spread_layout_apart: "all_apart spread_layout"
  by code_simp

lemma cos_arcsin_3_5: "cos (arcsin (3 / 5)) = 4 / 5"
proof -
  have "cos (arcsin (3 / 5 :: real)) = sqrt (1 - (3 / 5)\<^sup>2)"
    by (rule cos_arcsin) simp_all
  also have "1 - (3 / 5 :: real)\<^sup>2 = (4 / 5)\<^sup>2" by (simp add: power2_eq_square)
  also have "sqrt ((4 / 5 :: real)\<^sup>2) = 4 / 5" by simp
  finally show ?thesis .
qed

lemma ray_angle_sin_cos:
  assumes "k < 6"
  shows "sin (ray_angle k) = real_of_int (fst (ray_direction k)) / 5"
    and "cos (ray_angle k) = real_of_int (snd (ray_direction k)) / 5"
proof -
  from assms consider "k = 0" | "k = 1" | "k = 2" | "k = 3" | "k = 4" | "k = 5" by linarith
  then have "sin (ray_angle k) = real_of_int (fst (ray_direction k)) / 5
    \<and> cos (ray_angle k) = real_of_int (snd (ray_direction k)) / 5"
  proof cases
    case 4
    have "ray_angle 3 = pi / 2 + pi" "ray_direction 3 = (- 5, 0)"
      by (simp_all add: ray_angle_def ray_direction_def)
    with 4 show ?thesis
      by (simp only: sin_periodic_pi cos_periodic_pi sin_pi_half cos_pi_half fst_conv snd_conv)
         simp
  next
    case 5
    then show ?thesis
      by (simp add: ray_angle_def ray_direction_def cos_arcsin_3_5)
  next
    case 6
    have "ray_angle 5 = pi - arcsin (3 / 5)" "ray_direction 5 = (3, - 4)"
      by (simp_all add: ray_angle_def ray_direction_def)
    with 6 show ?thesis
      by (simp only: sin_pi_minus cos_pi_minus cos_arcsin_3_5 fst_conv snd_conv) simp
  qed (simp_all add: ray_angle_def ray_direction_def)
  then show "sin (ray_angle k) = real_of_int (fst (ray_direction k)) / 5"
    and "cos (ray_angle k) = real_of_int (snd (ray_direction k)) / 5"
    by simp_all
qed

lemma ray_angle_draw_turn: "ray_angle_draw k * PI2 = ray_angle k"
  by (simp add: ray_angle_draw_def PI2_def)

lemma candidate_ray:
  assumes "k < 6"
  shows "candidate (ray_angle_draw k ## (real_of_int d / 15) ## g)
       = (Vector2 (real_of_int (fst (ray_direction k) * d) / 5 - 6)
                  (real_of_int (snd (ray_direction k) * d) / 5), g)"
  using ray_angle_sin_cos[OF assms]
  by (simp add: candidate_def random_uniform_def ray_angle_draw_turn SPHERES_CIRCLE_RADIUS_def
      Let_def)

lemma pick_metal: "pick_material (4 / 7 * 7) = Inr METAL"
  by (simp add: pick_material_def trunc_int_def index_to_mat_def)

lemma sphere_body_first_try:
  assumes "k < 6"
    and "\<not> collision_from 1 i (positions buf)
           (Vector2 (real_of_int (fst (ray_direction k) * d) / 5 - 6)
                    (real_of_int (snd (ray_direction k) * d) / 5)) (1 / 2)"
  shows "sphere_body h i buf (0 ## ray_angle_draw k ## (real_of_int d / 15) ## (4 / 7) ## g)
       = Some (Inr (\<lparr> positions = (positions buf)[i := layout_sphere (k, d)],
                       materials = (materials buf)[i := Vector4 0.9 0.9 0.9 2] \<rparr>, g))"
proof -
  let ?g1 = "ray_angle_draw k ## (real_of_int d / 15) ## (4 / 7) ## g"
  have "place_sphere (positions buf) i (1 / 2) ?g1 = Some (candidate ?g1)"
    using assms(2) by (subst place_sphere.simps) (simp add: candidate_ray[OF assms(1)])
  then show ?thesis
    using pick_metal
    by (simp add: sphere_body_def random_uniform_def candidate_ray[OF assms(1)] Let_def
        layout_sphere_def index_to_mat_def)
qed

lemma apart_no_hit:
  assumes "apart p q"
  shows "\<not> v2_length (v2_sub (Vector2 (v4x (layout_sphere q)) (v4z (layout_sphere q)))
            (Vector2 (real_of_int (fst (ray_direction (fst p)) * snd p) / 5 - 6)
                     (real_of_int (snd (ray_direction (fst p)) * snd p) / 5)))
          < fadd (v4w (layout_sphere q)) (1 / 2)"
proof -
  let ?dx = "fst (ray_direction (fst q)) * snd q - fst (ray_direction (fst p)) * snd p"
  let ?dz = "snd (ray_direction (fst q)) * snd q - snd (ray_direction (fst p)) * snd p"
  have "25 \<le> ?dx\<^sup>2 + ?dz\<^sup>2" using assms by (simp add: apart_def)
  then have "(25 :: real) \<le> real_of_int (?dx\<^sup>2 + ?dz\<^sup>2)" by linarith
  then have "1 \<le> (real_of_int ?dx / 5)\<^sup>2 + (real_of_int ?dz / 5)\<^sup>2"
    by (simp add: power_divide)
  then have "1 \<le> sqrt ((real_of_int ?dx / 5)\<^sup>2 + (real_of_int ?dz / 5)\<^sup>2)" by simp
  moreover have "v2_length (v2_sub (Vector2 (v4x (layout_sphere q)) (v4z (layout_sphere q)))
            (Vector2 (real_of_int (fst (ray_direction (fst p)) * snd p) / 5 - 6)
                     (real_of_int (snd (ray_direction (fst p)) * snd p) / 5)))
      = sqrt ((real_of_int ?dx / 5)\<^sup>2 + (real_of_int ?dz / 5)\<^sup>2)"
    by (simp add: layout_sphere_def v2_length_def v2_sub_def power2_eq_square diff_divide_distrib)
  moreover have "fadd (v4w (layout_sphere q)) (1 / 2) = 1"
    by (simp add: layout_sphere_def fadd_half_half)
  ultimately show ?thesis by simp
qed

lemma loop_layout:
  "positions buf = p0 # map layout_sphere dn @ junkp \<Longrightarrow>
   materials buf = m0 # ms @ junkm \<Longrightarrow> length ms = length dn \<Longrightarrow>
   length junkp = length ds \<Longrightarrow> length junkm = length ds \<Longrightarrow>
   list_all (\<lambda>p. fst p < 6) ds \<Longrightarrow>
   list_all (\<lambda>p. list_all (apart p) dn) ds \<Longrightarrow> all_apart ds \<Longrightarrow>
   n = 1 + length dn + length ds \<Longrightarrow>
   spheres_loop h n (1 + length dn) buf (sphere_draws ds g)
     = Some (Inr (\<lparr> positions = p0 # map layout_sphere (dn @ ds),
                     materials = m0 # ms @ replicate (length ds) (Vector4 0.9 0.9 0.9 2) \<rparr>, g))"
proof (induction ds arbitrary: dn buf ms junkp junkm)
  case Nil
  then have "buf = \<lparr> positions = p0 # map layout_sphere dn, materials = m0 # ms \<rparr>"
    by simp
  with Nil show ?case by (simp add: spheres_loop_done)
next
  case (Cons p ds)
  obtain k d where p: "p = (k, d)" by (cases p)
  let ?i = "1 + length dn"
  from Cons.prems(4) obtain jp junkp' where jp: "junkp = jp # junkp'" "length junkp' = length ds"
    by (cases junkp) auto
  from Cons.prems(5) obtain jm junkm' where jm: "junkm = jm # junkm'" "length junkm' = length ds"
    by (cases junkm) auto
  have k: "k < 6" using Cons.prems(6) p by simp
  let ?c = "Vector2 (real_of_int (fst (ray_direction k) * d) / 5 - 6)
                    (real_of_int (snd (ray_direction k) * d) / 5)"
  have free: "\<not> collision_from 1 ?i (positions buf) ?c (1 / 2)"
  proof
    assume "collision_from 1 ?i (positions buf) ?c (1 / 2)"
    then obtain m where m: "1 \<le> m" "m < ?i" and
      hit: "hits (positions buf) ?c (1 / 2) m"
      unfolding collision_from_iff by blast
    from m obtain m' where m': "m = Suc m'" "m' < length dn" by (cases m) auto
    have nth: "positions buf ! m = layout_sphere (dn ! m')"
      using Cons.prems(1) m' by (simp add: nth_append)
    have "apart p (dn ! m')" using Cons.prems(7) m'(2) by (simp add: list_all_iff)
    from apart_no_hit[OF this] hit show False by (simp add: hits_def nth p)
  qed
  let ?buf' = "\<lparr> positions = (positions buf)[?i := layout_sphere (k, d)],
                 materials = (materials buf)[?i := Vector4 0.9 0.9 0.9 2] \<rparr>"
  have body: "sphere_body h ?i buf (sphere_draws (p # ds) g)
       = Some (Inr (?buf', sphere_draws ds g))"
    unfolding p sphere_draws.simps by (rule sphere_body_first_try[OF k free])
  have lt: "?i < n" using Cons.prems(9) by simp
  have pos': "positions ?buf' = p0 # map layout_sphere (dn @ [p]) @ junkp'"
    using Cons.prems(1) jp by (simp add: p list_update_append)
  have mat': "materials ?buf' = m0 # (ms @ [Vector4 0.9 0.9 0.9 2]) @ junkm'"
    using Cons.prems(2,3) jm by (simp add: list_update_append)
  have ih: "spheres_loop h n (1 + length (dn @ [p])) ?buf' (sphere_draws ds g)
     = Some (Inr (\<lparr> positions = p0 # map layout_sphere ((dn @ [p]) @ ds),
                     materials = m0 # (ms @ [Vector4 0.9 0.9 0.9 2])
                                   @ replicate (length ds) (Vector4 0.9 0.9 0.9 2) \<rparr>, g))"
  proof (rule Cons.IH[OF pos' mat'])
    show "length (ms @ [Vector4 0.9 0.9 0.9 2]) = length (dn @ [p])" using Cons.prems(3) by simp
    show "length junkp' = length ds" by (rule jp(2))
    show "length junkm' = length ds" by (rule jm(2))
    show "list_all (\<lambda>p. fst p < 6) ds" using Cons.prems(6) by simp
    show "all_apart ds" using Cons.prems(8) by simp
    show "n = 1 + length (dn @ [p]) + length ds" using Cons.prems(9) by simp
    have "list_all (\<lambda>q. apart q p) ds"
      using Cons.prems(8) by (simp add: list_all_iff apart_def add.commute power2_commute)
    with Cons.prems(7) show "list_all (\<lambda>q. list_all (apart q) (dn @ [p])) ds"
      by (simp add: list_all_iff)
  qed
  have "spheres_loop h n ?i buf (sphere_draws (p # ds) g)
      = spheres_loop h n (?i + 1) ?buf' (sphere_draws ds g)"
    by (rule spheres_loop_step[OF lt body])
  with ih show ?case by (simp add: replicate_append_same)
qed

lemma initial_spheres_shape:
  "positions (initial_spheres v)
     = Vector4 0 (- 1000) 0 1000 # map layout_sphere [] @ (Vector4 10 10 0 2 # replicate 73 v)"
  "materials (initial_spheres v)
     = Vector4 0.15 0.15 0.15 0 # [] @ (Vector4 800 800 800 4 # replicate 73 v)"
proof -
  have c: "SPHERES_COUNT = Suc (Suc 73)" by (simp add: SPHERES_COUNT_def)
  have r: "replicate SPHERES_COUNT v = v # v # replicate 73 v"
    by (simp only: c replicate_Suc)
  show "positions (initial_spheres v)
     = Vector4 0 (- 1000) 0 1000 # map layout_sphere [] @ (Vector4 10 10 0 2 # replicate 73 v)"
    "materials (initial_spheres v)
     = Vector4 0.15 0.15 0.15 0 # [] @ (Vector4 800 800 800 4 # replicate 73 v)"
    by (simp_all add: initial_spheres_def r)
qed

lemma reset_spheres_spread:
  "reset_spheres h (initial_spheres v) spread_source = Some (Inr (spread_scene, zero_source))"
proof -
  have "spheres_loop h SPHERES_COUNT (1 + length ([] :: (nat \<times> int) list)) (initial_spheres v)
          (sphere_draws spread_layout zero_source)
     = Some (Inr (\<lparr> positions = Vector4 0 (- 1000) 0 1000 # map layout_sphere ([] @ spread_layout),
                     materials = Vector4 0.15 0.15 0.15 0 # []
                        @ replicate (length spread_layout) (Vector4 0.9 0.9 0.9 2) \<rparr>,
                   zero_source))"
  proof (rule loop_layout[OF initial_spheres_shape])
    show "list_all (\<lambda>p. fst p < 6) spread_layout" by (rule spread_layout_rays)
    show "all_apart spread_layout" by (rule spread_layout_apart)
    show "list_all (\<lambda>p. list_all (apart p) []) spread_layout" by (simp add: list_all_iff)
  qed (simp_all add: spread_layout_length SPHERES_COUNT_def)
  then show ?thesis
    by (simp add: reset_spheres_def spread_source_def spread_scene_def spread_layout_length)
qed

subsection \<open>A generator whose first two spheres touch within rounding\<close>

lemma tight_layout_length: "length tight_layout = 72"
  by code_simp

lemma tight_layout_rays: "list_all (\<lambda>p. fst p < 6) tight_layout"
  by code_simp

lemma tight_layout_apart: "all_fine_apart tight_layout"
  by code_simp

lemma tight_layout_clear: "list_all fine_clear tight_layout"
  by code_simp

lemma candidate_fine:
  assumes "k < 6"
  shows "candidate (ray_angle_draw k ## (real_of_int d / 240) ## g) = (fine_point (k, d), g)"
  using ray_angle_sin_cos[OF assms]
  by (simp add: candidate_def random_uniform_def ray_angle_draw_turn SPHERES_CIRCLE_RADIUS_def
      Let_def fine_point_def)

lemma pick_metal_fine: "pick_material (5 / 8 * 7) = Inr METAL"
  by (simp add: pick_material_def trunc_int_def index_to_mat_def)

lemma sphere_body_fine_first_try:
  assumes "k < 6"
    and "\<not> collision_from 1 i (positions buf) (fine_point (k, d)) (1 / 2)"
  shows "sphere_body h i buf (0 ## ray_angle_draw k ## (real_of_int d / 240) ## (5 / 8) ## g)
       = Some (Inr (\<lparr> positions = (positions buf)[i := fine_sphere (k, d)],
                       materials = (materials buf)[i := Vector4 0.9 0.9 0.9 2] \<rparr>, g))"
proof -
  let ?g1 = "ray_angle_draw k ## (real_of_int d / 240) ## (5 / 8) ## g"
  have "place_sphere (positions buf) i (1 / 2) ?g1 = Some (candidate ?g1)"
    using assms(2) by (subst place_sphere.simps) (simp add: candidate_fine[OF assms(1)])
  then show ?thesis
    using pick_metal_fine
    by (simp add: sphere_body_def random_uniform_def candidate_fine[OF assms(1)] Let_def
        fine_sphere_def index_to_mat_def)
qed

lemma fine_apart_no_hit:
  assumes "fine_apart p q"
  shows "\<not> hits [fine_sphere q] (fine_point p) (1 / 2) 0"
proof -
  let ?dx = "fst (ray_direction (fst q)) * snd q - fst (ray_direction (fst p)) * snd p"
  let ?dz = "snd (ray_direction (fst q)) * snd q - snd (ray_direction (fst p)) * snd p"
  have "6400 \<le> ?dx\<^sup>2 + ?dz\<^sup>2" using assms by (simp add: fine_apart_def)
  then have "(6400 :: real) \<le> real_of_int (?dx\<^sup>2 + ?dz\<^sup>2)" by linarith
  then have "1 \<le> (real_of_int ?dx / 80)\<^sup>2 + (real_of_int ?dz / 80)\<^sup>2"
    by (simp add: power_divide)
  then have "1 \<le> sqrt ((real_of_int ?dx / 80)\<^sup>2 + (real_of_int ?dz / 80)\<^sup>2)" by simp
  moreover have "v2_length (v2_sub (Vector2 (v4x (fine_sphere q)) (v4z (fine_sphere q)))
                   (fine_point p))
      = sqrt ((real_of_int ?dx / 80)\<^sup>2 + (real_of_int ?dz / 80)\<^sup>2)"
    by (simp add: fine_sphere_def fine_point_def v2_length_def v2_sub_def power2_eq_square
        diff_divide_distrib)
  moreover have "fadd (v4w (fine_sphere q)) (1 / 2) = 1"
    by (simp add: fine_sphere_def fadd_half_half)
  ultimately show ?thesis by (simp add: hits_def)
qed

lemma sqrt_clear:
  fixes x z :: int
  assumes "14400 \<le> x\<^sup>2 + z\<^sup>2"
  shows "3 / 2 \<le> sqrt ((real_of_int x / 80)\<^sup>2 + (real_of_int z / 80)\<^sup>2)"
proof -
  define N where "N = real_of_int (x\<^sup>2 + z\<^sup>2)"
  have "14400 \<le> N" unfolding N_def using assms by linarith
  then have "9 / 4 \<le> N / 6400" by simp
  moreover have "(real_of_int x / 80)\<^sup>2 + (real_of_int z / 80)\<^sup>2 = N / 6400"
    by (simp add: N_def power_divide add_divide_distrib)
  moreover have "(3 / 2 :: real)\<^sup>2 = 9 / 4" by (simp add: power2_eq_square)
  ultimately have "(3 / 2)\<^sup>2 \<le> (real_of_int x / 80)\<^sup>2 + (real_of_int z / 80)\<^sup>2"
    by (simp only:)
  then show ?thesis by (rule real_le_rsqrt)
qed

lemma fine_clear_no_hit:
  assumes "fine_clear p"
  shows "\<not> hits [tight_first, tight_second] (fine_point p) (1 / 2) 0"
    and "\<not> hits [tight_first, tight_second] (fine_point p) (1 / 2) 1"
proof -
  let ?x = "fst (ray_direction (fst p)) * snd p"
  let ?z = "snd (ray_direction (fst p)) * snd p"
  have a: "14400 \<le> ?x\<^sup>2 + ?z\<^sup>2" and b: "14400 \<le> ?x\<^sup>2 + (150 - ?z)\<^sup>2"
    using assms by (simp_all add: fine_clear_def)
  have "v2_length (v2_sub (Vector2 (v4x tight_first) (v4z tight_first)) (fine_point p))
      = sqrt ((real_of_int ?x / 80)\<^sup>2 + (real_of_int ?z / 80)\<^sup>2)"
    by (simp add: tight_first_def fine_point_def v2_length_def v2_sub_def power2_eq_square)
  with sqrt_clear[OF a] show "\<not> hits [tight_first, tight_second] (fine_point p) (1 / 2) 0"
    by (simp add: hits_def fadd_tight_numeral tight_first_def)
  have "v2_length (v2_sub (Vector2 (v4x tight_second) (v4z tight_second)) (fine_point p))
      = sqrt ((real_of_int ?x / 80)\<^sup>2 + (real_of_int (150 - ?z) / 80)\<^sup>2)"
    by (simp add: tight_second_def fine_point_def v2_length_def v2_sub_def power2_eq_square
        diff_divide_distrib)
  with sqrt_clear[OF b] show "\<not> hits [tight_first, tight_second] (fine_point p) (1 / 2) 1"
    by (simp add: hits_def fadd_23 tight_second_def)
qed

lemma hits_nth: "hits ps c s k \<longleftrightarrow> hits [ps ! k] c s 0"
  by (simp add: hits_def)

lemma loop_fine:
  "positions buf = p0 # placed @ junkp \<Longrightarrow>
   materials buf = m0 # ms @ junkm \<Longrightarrow> length ms = length placed \<Longrightarrow>
   length junkp = length ds \<Longrightarrow> length junkm = length ds \<Longrightarrow>
   list_all (\<lambda>p. fst p < 6) ds \<Longrightarrow>
   list_all (\<lambda>p. \<forall>m<length placed. \<not> hits placed (fine_point p) (1 / 2) m) ds \<Longrightarrow>
   all_fine_apart ds \<Longrightarrow>
   n = 1 + length placed + length ds \<Longrightarrow>
   spheres_loop h n (1 + length placed) buf (fine_draws ds g)
     = Some (Inr (\<lparr> positions = p0 # placed @ map fine_sphere ds,
                     materials = m0 # ms @ replicate (length ds) (Vector4 0.9 0.9 0.9 2) \<rparr>, g))"
proof (induction ds arbitrary: placed buf ms junkp junkm)
  case Nil
  then have "buf = \<lparr> positions = p0 # placed, materials = m0 # ms \<rparr>"
    by simp
  with Nil show ?case by (simp add: spheres_loop_done)
next
  case (Cons p ds)
  obtain k d where p: "p = (k, d)" by (cases p)
  let ?i = "1 + length placed"
  from Cons.prems(4) obtain jp junkp' where jp: "junkp = jp # junkp'" "length junkp' = length ds"
    by (cases junkp) auto
  from Cons.prems(5) obtain jm junkm' where jm: "junkm = jm # junkm'" "length junkm' = length ds"
    by (cases junkm) auto
  have k: "k < 6" using Cons.prems(6) p by simp
  have free: "\<not> collision_from 1 ?i (positions buf) (fine_point (k, d)) (1 / 2)"
  proof
    assume "collision_from 1 ?i (positions buf) (fine_point (k, d)) (1 / 2)"
    then obtain m where m: "1 \<le> m" "m < ?i" and
      hit: "hits (positions buf) (fine_point (k, d)) (1 / 2) m"
      unfolding collision_from_iff by blast
    from m obtain m' where m': "m = Suc m'" "m' < length placed" by (cases m) auto
    have nth: "positions buf ! m = placed ! m'"
      using Cons.prems(1) m' by (simp add: nth_append)
    have "\<not> hits placed (fine_point p) (1 / 2) m'" using Cons.prems(7) m'(2) by simp
    with hit show False by (simp add: hits_def nth p)
  qed
  let ?buf' = "\<lparr> positions = (positions buf)[?i := fine_sphere (k, d)],
                 materials = (materials buf)[?i := Vector4 0.9 0.9 0.9 2] \<rparr>"
  have body: "sphere_body h ?i buf (fine_draws (p # ds) g)
       = Some (Inr (?buf', fine_draws ds g))"
    unfolding p fine_draws.simps by (rule sphere_body_fine_first_try[OF k free])
  have lt: "?i < n" using Cons.prems(9) by simp
  have pos': "positions ?buf' = p0 # (placed @ [fine_sphere p]) @ junkp'"
    using Cons.prems(1) jp by (simp add: p list_update_append)
  have mat': "materials ?buf' = m0 # (ms @ [Vector4 0.9 0.9 0.9 2]) @ junkm'"
    using Cons.prems(2,3) jm by (simp add: list_update_append)
  have ih: "spheres_loop h n (1 + length (placed @ [fine_sphere p])) ?buf' (fine_draws ds g)
     = Some (Inr (\<lparr> positions = p0 # (placed @ [fine_sphere p]) @ map fine_sphere ds,
                     materials = m0 # (ms @ [Vector4 0.9 0.9 0.9 2])
                                   @ replicate (length ds) (Vector4 0.9 0.9 0.9 2) \<rparr>, g))"
  proof (rule Cons.IH[OF pos' mat'])
    show "length (ms @ [Vector4 0.9 0.9 0.9 2]) = length (placed @ [fine_sphere p])"
      using Cons.prems(3) by simp
    show "length junkp' = length ds" by (rule jp(2))
    show "length junkm' = length ds" by (rule jm(2))
    show "list_all (\<lambda>p. fst p < 6) ds" using Cons.prems(6) by simp
    show "all_fine_apart ds" using Cons.prems(8) by simp
    show "n = 1 + length (placed @ [fine_sphere p]) + length ds" using Cons.prems(9) by simp
    have new: "\<not> hits (placed @ [fine_sphere p]) (fine_point q) (1 / 2) (length placed)"
      if "q \<in> set ds" for q
    proof -
      from Cons.prems(8) that have "fine_apart p q" by (simp add: list_all_iff)
      then have "fine_apart q p"
        by (simp add: fine_apart_def add.commute power2_commute)
      from fine_apart_no_hit[OF this] show ?thesis by (simp add: hits_def)
    qed
    have old: "\<not> hits (placed @ [fine_sphere p]) (fine_point q) (1 / 2) m"
      if "q \<in> set ds" "m < length placed" for q m
      using Cons.prems(7) that by (simp add: list_all_iff hits_def nth_append)
    show "list_all (\<lambda>q. \<forall>m<length (placed @ [fine_sphere p]).
             \<not> hits (placed @ [fine_sphere p]) (fine_point q) (1 / 2) m) ds"
      unfolding list_all_iff
    proof (intro ballI allI impI)
      fix q m assume q: "q \<in> set ds" and "m < length (placed @ [fine_sphere p])"
      then consider "m < length placed" | "m = length placed" by fastforce
      then show "\<not> hits (placed @ [fine_sphere p]) (fine_point q) (1 / 2) m"
        using old[OF q] new[OF q] by cases simp_all
    qed
  qed
  have "spheres_loop h n ?i buf (fine_draws (p # ds) g)
      = spheres_loop h n (?i + 1) ?buf' (fine_draws ds g)"
    by (rule spheres_loop_step[OF lt body])
  with ih show ?case by (simp add: replicate_append_same)
qed

lemma candidate_axis: "candidate (0 ## u ## g) = (Vector2 (- 6) (u * 15), g)"
  by (simp add: candidate_def random_uniform_def SPHERES_CIRCLE_RADIUS_def Let_def)

lemma replicate_73: "replicate 73 v = v # replicate 72 v"
proof -
  have "(73 :: nat) = Suc 72" by simp
  then show ?thesis by (simp only: replicate_Suc)
qed

lemma replicate_74: "replicate 74 v = v # v # replicate 72 v"
proof -
  have "(74 :: nat) = Suc (Suc 72)" by simp
  then show ?thesis by (simp only: replicate_Suc)
qed

lemma sqrt_15_8: "sqrt (225 / 64) = 15 / 8"
proof -
  have "sqrt ((15 / 8)\<^sup>2) = 15 / 8" by (simp only: real_sqrt_abs)
  then show ?thesis by (simp add: power2_eq_square)
qed

lemma initial_spheres_slots:
  "positions (initial_spheres v) = Vector4 0 (- 1000) 0 1000 # Vector4 10 10 0 2 # replicate 73 v"
  "materials (initial_spheres v)
     = Vector4 0.15 0.15 0.15 0 # Vector4 800 800 800 4 # replicate 73 v"
  using initial_spheres_shape[of v] by simp_all

lemma sphere_body_tight_first:
  "sphere_body h 1 (initial_spheres v) ((7 / 8 + 1 / 2 ^ 23) ## 0 ## 0 ## (5 / 8) ## g)
     = Some (Inr (tight_after_first v, g))"
proof -
  have "place_sphere (positions (initial_spheres v)) 1 (15 / 16 + 1 / 2 ^ 24)
          (0 ## 0 ## (5 / 8) ## g) = Some (Vector2 (- 6) 0, (5 / 8) ## g)"
    by (simp only: place_first_sphere candidate_axis) simp
  moreover have "fst (random_uniform 0.5 1.0 ((7 / 8 + 1 / 2 ^ 23) ## 0 ## 0 ## (5 / 8) ## g))
      = 15 / 16 + 1 / 2 ^ 24"
    by (simp add: random_uniform_def)
  ultimately show ?thesis
    using pick_metal_fine
    by (simp add: sphere_body_def random_uniform_def Let_def index_to_mat_def
        initial_spheres_slots tight_after_first_def tight_first_def)
qed

lemma tight_second_free:
  "\<not> collision_from 1 2 (positions (tight_after_first v)) (Vector2 (- 6) (15 / 8)) (15 / 16)"
proof -
  have "v2_length (v2_sub (Vector2 (- 6) 0) (Vector2 (- 6) (15 / 8))) = 15 / 8"
    by (simp add: v2_length_def v2_sub_def power2_eq_square sqrt_15_8)
  then have "\<not> hits (positions (tight_after_first v)) (Vector2 (- 6) (15 / 8)) (15 / 16) 1"
    by (simp add: hits_def tight_after_first_def tight_first_def fadd_tight_numeral)
  then show ?thesis
    unfolding collision_from_iff
    by (metis Suc_1 le_antisym less_Suc_eq_le)
qed

lemma sphere_body_tight_second:
  "sphere_body h 2 (tight_after_first v) ((7 / 8) ## 0 ## (1 / 8) ## (5 / 8) ## g)
     = Some (Inr (tight_after_second v, g))"
proof -
  have "candidate (0 ## (1 / 8) ## (5 / 8) ## g) = (Vector2 (- 6) (15 / 8), (5 / 8) ## g)"
    by (simp add: candidate_axis)
  with tight_second_free[of v]
  have "place_sphere (positions (tight_after_first v)) 2 (15 / 16) (0 ## (1 / 8) ## (5 / 8) ## g)
      = Some (Vector2 (- 6) (15 / 8), (5 / 8) ## g)"
    by (subst place_sphere.simps) simp
  then show ?thesis
    using pick_metal_fine
    by (simp add: sphere_body_def random_uniform_def Let_def index_to_mat_def
        tight_after_first_def tight_after_second_def tight_second_def replicate_73)
qed

lemma reset_spheres_tight:
  "reset_spheres h (initial_spheres v) tight_source = Some (Inr (tight_scene, zero_source))"
proof -
  let ?metal = "Vector4 0.9 0.9 0.9 2"
  let ?g2 = "fine_draws tight_layout zero_source"
  let ?g1 = "(7 / 8) ## 0 ## (1 / 8) ## (5 / 8) ## ?g2"
  have "spheres_loop h SPHERES_COUNT (1 + length [tight_first, tight_second])
          (tight_after_second v) ?g2
     = Some (Inr (\<lparr> positions = Vector4 0 (- 1000) 0 1000
                        # [tight_first, tight_second] @ map fine_sphere tight_layout,
                     materials = Vector4 0.15 0.15 0.15 0 # [?metal, ?metal]
                        @ replicate (length tight_layout) ?metal \<rparr>,
                   zero_source))"
  proof (rule loop_fine)
    show "positions (tight_after_second v)
        = Vector4 0 (- 1000) 0 1000 # [tight_first, tight_second] @ replicate 72 v"
      by (simp add: tight_after_second_def)
    show "materials (tight_after_second v)
        = Vector4 0.15 0.15 0.15 0 # [?metal, ?metal] @ replicate 72 v"
      by (simp add: tight_after_second_def)
    show "list_all (\<lambda>p. fst p < 6) tight_layout" by (rule tight_layout_rays)
    show "all_fine_apart tight_layout" by (rule tight_layout_apart)
    show "list_all (\<lambda>p. \<forall>m<length [tight_first, tight_second].
             \<not> hits [tight_first, tight_second] (fine_point p) (1 / 2) m) tight_layout"
      unfolding list_all_iff
    proof (intro ballI allI impI)
      fix p m assume "p \<in> set tight_layout" and m: "m < length [tight_first, tight_second]"
      with tight_layout_clear have c: "fine_clear p" by (simp add: list_all_iff)
      from m consider "m = 0" | "m = 1" by fastforce
      then show "\<not> hits [tight_first, tight_second] (fine_point p) (1 / 2) m"
        using fine_clear_no_hit[OF c] by cases simp_all
    qed
  qed (simp_all add: tight_layout_length SPHERES_COUNT_def)
  then have rest: "spheres_loop h SPHERES_COUNT 3 (tight_after_second v) ?g2
     = Some (Inr (tight_scene, zero_source))"
    by (simp add: tight_scene_def tight_layout_length replicate_74 numeral_3_eq_3)
  have "spheres_loop h SPHERES_COUNT 1 (initial_spheres v) tight_source
      = spheres_loop h SPHERES_COUNT (1 + 1) (tight_after_first v) ?g1"
    unfolding tight_source_def
    by (rule spheres_loop_step[OF _ sphere_body_tight_first]) (simp add: SPHERES_COUNT_def)
  also have "\<dots> = spheres_loop h SPHERES_COUNT (2 + 1) (tight_after_second v) ?g2"
    by (simp only: one_add_one)
       (rule spheres_loop_step[OF _ sphere_body_tight_second], simp add: SPHERES_COUNT_def)
  finally show ?thesis using rest by (simp add: reset_spheres_def)
qed

lemma tight_pair_distance:
  "planar_distance tight_first tight_second = 15 / 8"
  by (simp add: planar_distance_def tight_first_def tight_second_def v2_length_def v2_sub_def
      power2_eq_square sqrt_15_8)

lemma tight_scene_slots:
  "positions tight_scene ! 1 = tight_first" "positions tight_scene ! 2 = tight_second"
  by (simp_all add: tight_scene_def)

lemma non_overlapping_float_bounded:
  assumes "non_overlapping_float n ps"
  shows "overlap_bounded n ps"
  unfolding overlap_bounded_def
proof (intro ballI impI)
  fix i j assume i: "i \<in> {1..<n}" and j: "j \<in> {1..<n}"
    and h: "i \<noteq> j \<and> 1 \<le> v4w (ps ! i) + v4w (ps ! j) \<and> v4w (ps ! i) + v4w (ps ! j) < 2"
  from assms i j h have "fadd (v4w (ps ! i)) (v4w (ps ! j)) \<le> planar_distance (ps ! i) (ps ! j)"
    by (simp add: non_overlapping_float_def)
  moreover from h have "v4w (ps ! i) + v4w (ps ! j) - 1 / 2 ^ 24 \<le> fadd (v4w (ps ! i)) (v4w (ps ! j))"
    by (intro fadd_lower) simp_all
  ultimately show "v4w (ps ! i) + v4w (ps ! j) - 1 / 2 ^ 24 \<le> planar_distance (ps ! i) (ps ! j)"
    by linarith
qed

text \<open>
  C1, as the code has it: when the scene generation completes, for any two different
  non-ground spheres (slots 1 to \<open>SPHERES_COUNT - 1\<close>) the horizontal-plane distance of the
  centres, the length that the collision test of line 163 takes, is at least the
  single-precision sum of the two radii, the value that the test compares it with. It is
  therefore at least the sum of the radii less \<open>2 ^ (- 24)\<close> when that sum lies in [1, 2), as
  it does for radii in [1/2, 1).
\<close>

theorem reset_spheres_float_separated:
  assumes "reset_spheres hsv_to_rgb buf g = Some (Inr (buf', g'))"
    and "length (positions buf) = SPHERES_COUNT"
  shows "non_overlapping_float SPHERES_COUNT (positions buf')
       \<and> overlap_bounded SPHERES_COUNT (positions buf')"
proof -
  have "non_overlapping_float 1 (positions buf)" by (simp add: non_overlapping_float_def)
  with spheres_loop_non_overlapping_float[of hsv_to_rgb SPHERES_COUNT 1 buf g buf' g'] assms
  have "non_overlapping_float SPHERES_COUNT (positions buf')"
    by (simp add: reset_spheres_def SPHERES_COUNT_def)
  then show ?thesis by (simp add: non_overlapping_float_bounded)
qed

theorem reset_spheres_float_separated_witness:
  "reset_spheres grey_of_value (initial_spheres (Vector4 0 0 0 0)) tight_source
     = Some (Inr (tight_scene, zero_source))
   \<and> length (positions (initial_spheres (Vector4 0 0 0 0))) = SPHERES_COUNT
   \<and> non_overlapping_float SPHERES_COUNT (positions tight_scene)
   \<and> overlap_bounded SPHERES_COUNT (positions tight_scene)
   \<and> fadd (v4w (positions tight_scene ! 1)) (v4w (positions tight_scene ! 2)) = 15 / 8
   \<and> v4w (positions tight_scene ! 1) + v4w (positions tight_scene ! 2) = 15 / 8 + 1 / 2 ^ 24
   \<and> planar_distance (positions tight_scene ! 1) (positions tight_scene ! 2) = 15 / 8"
proof -
  have len: "length (positions (initial_spheres (Vector4 0 0 0 0))) = SPHERES_COUNT"
    by (simp add: initial_spheres_def)
  have run: "reset_spheres grey_of_value (initial_spheres (Vector4 0 0 0 0)) tight_source
     = Some (Inr (tight_scene, zero_source))"
    by (rule reset_spheres_tight)
  have sum: "fadd (v4w (positions tight_scene ! 1)) (v4w (positions tight_scene ! 2)) = 15 / 8"
    unfolding tight_scene_slots by (simp add: tight_first_def tight_second_def fadd_tight_numeral)
  have exact: "v4w (positions tight_scene ! 1) + v4w (positions tight_scene ! 2)
      = 15 / 8 + 1 / 2 ^ 24"
    unfolding tight_scene_slots by (simp add: tight_first_def tight_second_def)
  have dist: "planar_distance (positions tight_scene ! 1) (positions tight_scene ! 2) = 15 / 8"
    unfolding tight_scene_slots by (rule tight_pair_distance)
  from reset_spheres_float_separated[OF run len] run len sum exact dist
  show ?thesis by blast
qed

text \<open>
  The single-precision sum can be below the sum of the radii. On \<open>tight_source\<close> the
  generation completes, the spheres in the slots 1 and 2 have the radii \<open>15/16 + 2 ^ (- 24)\<close>
  and \<open>15/16\<close>, whose sum rounds to \<open>15/8\<close>, and their centres are \<open>15/8\<close> apart: less than
  the sum of the radii.
\<close>

theorem reset_spheres_overlap:
  "reset_spheres grey_of_value (initial_spheres (Vector4 0 0 0 0)) tight_source
     = Some (Inr (tight_scene, zero_source))
   \<and> positions tight_scene ! 1 = Vector4 (- 6) (15 / 16 + 1 / 2 ^ 24) 0 (15 / 16 + 1 / 2 ^ 24)
   \<and> positions tight_scene ! 2 = Vector4 (- 6) (15 / 16) (15 / 8) (15 / 16)
   \<and> planar_distance (positions tight_scene ! 1) (positions tight_scene ! 2) = 15 / 8
   \<and> planar_distance (positions tight_scene ! 1) (positions tight_scene ! 2)
       < v4w (positions tight_scene ! 1) + v4w (positions tight_scene ! 2)
   \<and> \<not> non_overlapping SPHERES_COUNT (positions tight_scene)"
proof -
  have short: "planar_distance (positions tight_scene ! 1) (positions tight_scene ! 2)
       < v4w (positions tight_scene ! 1) + v4w (positions tight_scene ! 2)"
    unfolding tight_scene_slots tight_pair_distance
    by (simp add: tight_first_def tight_second_def)
  have "\<not> non_overlapping SPHERES_COUNT (positions tight_scene)"
  proof
    assume "non_overlapping SPHERES_COUNT (positions tight_scene)"
    then have "v4w (positions tight_scene ! 1) + v4w (positions tight_scene ! 2)
        \<le> planar_distance (positions tight_scene ! 1) (positions tight_scene ! 2)"
      unfolding non_overlapping_def SPHERES_COUNT_def
      by (rule ballE[of _ _ 1]; (rule ballE[of _ _ 2])?) simp_all
    with short show False by simp
  qed
  moreover have "positions tight_scene ! 1
      = Vector4 (- 6) (15 / 16 + 1 / 2 ^ 24) 0 (15 / 16 + 1 / 2 ^ 24)"
    unfolding tight_scene_slots by (simp add: tight_first_def)
  moreover have "positions tight_scene ! 2 = Vector4 (- 6) (15 / 16) (15 / 8) (15 / 16)"
    unfolding tight_scene_slots by (simp add: tight_second_def)
  moreover have "planar_distance (positions tight_scene ! 1) (positions tight_scene ! 2) = 15 / 8"
    unfolding tight_scene_slots by (rule tight_pair_distance)
  moreover note short reset_spheres_tight[of grey_of_value "Vector4 0 0 0 0"]
  ultimately show ?thesis by blast
qed

subsection \<open>The scene depends on the random source alone\<close>

lemma place_sphere_cong:
  assumes "\<And>k. k < i \<Longrightarrow> ps1 ! k = ps2 ! k"
  shows "place_sphere ps1 i s g = place_sphere ps2 i s g"
proof -
  have "hits ps1 c s k = hits ps2 c s k" if "k < i" for c k
    using assms[OF that] by (simp add: hits_def)
  then have "collision_from 1 i ps1 c s = collision_from 1 i ps2 c s" for c
    by (auto simp: collision_from_iff)
  then have "rejected ps1 i s g k = rejected ps2 i s g k" for k
    by (simp add: rejected_def)
  then show ?thesis by (simp add: place_sphere_char)
qed

lemma sphere_body_agree:
  assumes ag: "agree_upto i b1 b2" and i: "i < length (positions b1)" "i < length (materials b1)"
  shows "(sphere_body h i b1 g = None \<and> sphere_body h i b2 g = None)
       \<or> (\<exists>e. sphere_body h i b1 g = Some (Inl e) \<and> sphere_body h i b2 g = Some (Inl e))
       \<or> (\<exists>c1 c2 g'. sphere_body h i b1 g = Some (Inr (c1, g'))
             \<and> sphere_body h i b2 g = Some (Inr (c2, g')) \<and> agree_upto (i + 1) c1 c2)"
proof -
  have pl: "place_sphere (positions b1) i s g0 = place_sphere (positions b2) i s g0" for s g0
    using ag by (intro place_sphere_cong) (simp add: agree_upto_def)
  have upd: "agree_upto (i + 1)
       \<lparr> positions = (positions b1)[i := X], materials = (materials b1)[i := Y] \<rparr>
       \<lparr> positions = (positions b2)[i := X], materials = (materials b2)[i := Y] \<rparr>" for X Y
    using ag i by (auto simp: agree_upto_def nth_list_update less_Suc_eq)
  show ?thesis
    using upd
    by (simp add: sphere_body_def pl Let_def split: prod.splits option.splits sum.splits)
qed

lemma spheres_loop_agree:
  "agree_upto i b1 b2 \<Longrightarrow> n \<le> length (positions b1) \<Longrightarrow> n \<le> length (materials b1) \<Longrightarrow>
   i \<le> n \<Longrightarrow>
   (spheres_loop h n i b1 g = None \<and> spheres_loop h n i b2 g = None)
   \<or> (\<exists>e. spheres_loop h n i b1 g = Some (Inl e) \<and> spheres_loop h n i b2 g = Some (Inl e))
   \<or> (\<exists>c1 c2 g'. spheres_loop h n i b1 g = Some (Inr (c1, g'))
         \<and> spheres_loop h n i b2 g = Some (Inr (c2, g')) \<and> agree_upto n c1 c2)"
proof (induction h n i b1 g arbitrary: b2 rule: spheres_loop.induct)
  case (1 h n i b1 g)
  show ?case
  proof (cases "i < n")
    case False
    with 1(5) have "i = n" by simp
    have "spheres_loop h n i b1 g = Some (Inr (b1, g))" "spheres_loop h n i b2 g = Some (Inr (b2, g))"
      using False by (subst spheres_loop.simps, simp)+
    with 1(2) \<open>i = n\<close> show ?thesis by simp
  next
    case True
    have i: "i < length (positions b1)" "i < length (materials b1)" using True 1(3,4) by simp_all
    have unf: "spheres_loop h n i b g =
        (case sphere_body h i b g of None \<Rightarrow> None | Some (Inl e) \<Rightarrow> Some (Inl e)
         | Some (Inr (b', g')) \<Rightarrow> spheres_loop h n (i + 1) b' g')" for b
      using True by (subst spheres_loop.simps) simp
    from sphere_body_agree[OF 1(2) i, of h g]
    consider (none) "sphere_body h i b1 g = None" "sphere_body h i b2 g = None"
      | (err) e where "sphere_body h i b1 g = Some (Inl e)" "sphere_body h i b2 g = Some (Inl e)"
      | (ok) c1 c2 g' where "sphere_body h i b1 g = Some (Inr (c1, g'))"
          "sphere_body h i b2 g = Some (Inr (c2, g'))" "agree_upto (i + 1) c1 c2"
      by (elim disjE exE conjE) auto
    then show ?thesis
    proof cases
      case none
      then show ?thesis by (simp add: unf)
    next
      case err
      then show ?thesis by (simp add: unf)
    next
      case ok
      have len: "n \<le> length (positions c1)" "n \<le> length (materials c1)"
        using sphere_body_length[OF ok(1)] 1(3,4) by simp_all
      from 1(1)[OF True ok(1) refl refl ok(3) len] True
      show ?thesis by (simp add: unf ok)
    qed
  qed
qed

text \<open>
  C9: the scene generation is deterministic given the random source. Started from the same
  generator state, it gives the same outcome and the same scene whatever the slots 1 to 74 of
  the buffer held before, so generating again with the same seed reproduces the scene.
\<close>

theorem reset_spheres_deterministic:
  assumes "length (positions b1) = SPHERES_COUNT" "length (materials b1) = SPHERES_COUNT"
    and "length (positions b2) = SPHERES_COUNT" "length (materials b2) = SPHERES_COUNT"
    and "positions b1 ! 0 = positions b2 ! 0" "materials b1 ! 0 = materials b2 ! 0"
  shows "reset_spheres hsv_to_rgb b1 g = reset_spheres hsv_to_rgb b2 g"
proof -
  have ag: "agree_upto 1 b1 b2" using assms by (simp add: agree_upto_def)
  have eq: "c1 = c2" if "agree_upto SPHERES_COUNT c1 c2"
    "length (positions c1) = SPHERES_COUNT" "length (materials c1) = SPHERES_COUNT" for c1 c2
  proof -
    have "positions c1 = positions c2" "materials c1 = materials c2"
      using that by (auto simp: agree_upto_def intro!: nth_equalityI)
    then show ?thesis by simp
  qed
  from spheres_loop_agree[OF ag, of SPHERES_COUNT hsv_to_rgb g] assms
  consider "reset_spheres hsv_to_rgb b1 g = None" "reset_spheres hsv_to_rgb b2 g = None"
    | e where "reset_spheres hsv_to_rgb b1 g = Some (Inl e)"
        "reset_spheres hsv_to_rgb b2 g = Some (Inl e)"
    | c1 c2 g' where "reset_spheres hsv_to_rgb b1 g = Some (Inr (c1, g'))"
        "reset_spheres hsv_to_rgb b2 g = Some (Inr (c2, g'))" "agree_upto SPHERES_COUNT c1 c2"
    unfolding reset_spheres_def by (auto simp: SPHERES_COUNT_def)
  then show ?thesis
  proof cases
    case 3
    have "length (positions c1) = SPHERES_COUNT" "length (materials c1) = SPHERES_COUNT"
      using spheres_loop_length[OF 3(1)[unfolded reset_spheres_def]] assms by simp_all
    with eq[OF 3(3)] 3 show ?thesis by simp
  qed simp_all
qed

theorem reset_spheres_deterministic_witness:
  "length (positions (initial_spheres (Vector4 0 0 0 0))) = SPHERES_COUNT
   \<and> length (positions spread_scene) = SPHERES_COUNT
   \<and> positions (initial_spheres (Vector4 0 0 0 0)) ! 0 = positions spread_scene ! 0
   \<and> materials (initial_spheres (Vector4 0 0 0 0)) ! 0 = materials spread_scene ! 0
   \<and> reset_spheres grey_of_value (initial_spheres (Vector4 0 0 0 0)) spread_source
       = Some (Inr (spread_scene, zero_source))
   \<and> reset_spheres grey_of_value spread_scene spread_source
       = Some (Inr (spread_scene, zero_source))"
proof -
  let ?b1 = "initial_spheres (Vector4 0 0 0 0)"
  have l1: "length (positions ?b1) = SPHERES_COUNT" "length (materials ?b1) = SPHERES_COUNT"
    by (simp_all add: initial_spheres_def)
  have l2: "length (positions spread_scene) = SPHERES_COUNT"
    "length (materials spread_scene) = SPHERES_COUNT"
    by (simp_all add: spread_scene_def spread_layout_length SPHERES_COUNT_def)
  have z: "positions ?b1 ! 0 = positions spread_scene ! 0"
    "materials ?b1 ! 0 = materials spread_scene ! 0"
    by (simp_all add: initial_spheres_def spread_scene_def SPHERES_COUNT_def)
  from reset_spheres_deterministic[OF l1 l2 z, of grey_of_value spread_source]
    reset_spheres_spread[of grey_of_value "Vector4 0 0 0 0"] l1 l2 z
  show ?thesis by simp
qed

subsection \<open>Material assignment\<close>

lemma pick_material_slot:
  assumes "0 \<le> v" "v < 7"
  shows "pick_material v = Inr (index_to_mat ! nat (trunc_int v))"
    and "trunc_int v = \<lfloor>v\<rfloor>" and "0 \<le> \<lfloor>v\<rfloor>" and "\<lfloor>v\<rfloor> < 7"
proof -
  show fl: "0 \<le> \<lfloor>v\<rfloor>" "\<lfloor>v\<rfloor> < 7" using assms by (simp_all add: floor_less_iff)
  show t: "trunc_int v = \<lfloor>v\<rfloor>" using assms by (simp add: trunc_int_def)
  show "pick_material v = Inr (index_to_mat ! nat (trunc_int v))"
    using fl unfolding pick_material_def Let_def t by (simp add: index_to_mat_def)
qed

lemma index_to_mat_kind:
  assumes "0 \<le> v" "v < 7"
  shows "index_to_mat ! nat (trunc_int v) = material_of_draw v"
proof -
  note s = pick_material_slot[OF assms]
  from s(3,4) consider "\<lfloor>v\<rfloor> = 0" | "\<lfloor>v\<rfloor> = 1" | "\<lfloor>v\<rfloor> = 2" | "\<lfloor>v\<rfloor> = 3"
    | "\<lfloor>v\<rfloor> = 4" | "\<lfloor>v\<rfloor> = 5" | "\<lfloor>v\<rfloor> = 6" by linarith
  then show ?thesis
  proof cases
    case 1
    then have "0 \<le> v \<and> v < 1" by (simp add: floor_eq_iff)
    with 1 show ?thesis by (simp add: s(2) index_to_mat_def material_of_draw_def)
  next
    case 2
    then have "1 \<le> v \<and> v < 2" by (simp add: floor_eq_iff)
    with 2 show ?thesis by (simp add: s(2) index_to_mat_def material_of_draw_def)
  next
    case 3
    then have "2 \<le> v \<and> v < 3" by (simp add: floor_eq_iff)
    with 3 show ?thesis by (simp add: s(2) index_to_mat_def material_of_draw_def)
  next
    case 4
    then have "3 \<le> v \<and> v < 4" by (simp add: floor_eq_iff)
    with 4 show ?thesis by (simp add: s(2) index_to_mat_def material_of_draw_def)
  next
    case 5
    then have "4 \<le> v \<and> v < 5" by (simp add: floor_eq_iff)
    with 5 show ?thesis by (simp add: s(2) index_to_mat_def material_of_draw_def)
  next
    case 6
    then have "5 \<le> v \<and> v < 6" by (simp add: floor_eq_iff)
    with 6 show ?thesis by (simp add: s(2) index_to_mat_def material_of_draw_def)
  next
    case 7
    then have "6 \<le> v \<and> v < 7" by (simp add: floor_eq_iff)
    with 7 show ?thesis by (simp add: s(2) index_to_mat_def material_of_draw_def)
  qed
qed

lemma sphere_body_stores_material:
  assumes placed: "place_sphere (positions buf) i (fst (random_uniform 0.5 1.0 g))
                     (snd (random_uniform 0.5 1.0 g)) = Some (p, g2)"
    and pick: "pick_material (fst (random_uniform 0 (real (length index_to_mat)) g2)) = Inr mat"
    and i: "i < length (materials buf)"
  shows "stored_material h i buf g = Some (real (material_code mat))"
proof -
  obtain color g4 where
    c: "sphere_color h mat (snd (random_uniform 0 (real (length index_to_mat)) g2)) = (color, g4)"
    by (cases "sphere_color h mat (snd (random_uniform 0 (real (length index_to_mat)) g2))")
  show ?thesis
    using placed pick c i
    by (simp add: stored_material_def sphere_body_def Let_def case_prod_beta)
qed

text \<open>
  C7: the material of a generated sphere is read from a table of 7 slots in which LAMBERT and
  LAMBERT_CHECKERBOARD take 2 slots each and METAL, DIELECTRIC and LIGHT 1 slot each. When the
  draw over the table gives a value \<open>v\<close> in [0, 7), slot \<open>k\<close> is chosen exactly for \<open>v\<close> in
  [k, k + 1), the loop body stores the material of the chosen slot in \<open>materials[i]\<close>, and
  the five kinds are stored on intervals of \<open>v\<close> of the lengths 2, 2, 1, 1 and 1 out of 7.
\<close>

theorem material_slots:
  assumes "place_sphere (positions buf) i (fst (random_uniform 0.5 1.0 g))
             (snd (random_uniform 0.5 1.0 g)) = Some (p, g2)"
    and "v = fst (random_uniform 0 (real (length index_to_mat)) g2)"
    and "0 \<le> v" "v < 7"
    and "i < length (materials buf)"
  shows "length index_to_mat = 7
       \<and> map (count_list index_to_mat) [LAMBERT, LAMBERT_CHECKERBOARD, METAL, DIELECTRIC, LIGHT]
           = [2, 2, 1, 1, 1]
       \<and> (\<forall>k<7. trunc_int v = int k \<longleftrightarrow> real k \<le> v \<and> v < real k + 1)
       \<and> stored_material hsv_to_rgb i buf g
           = Some (real (material_code (index_to_mat ! nat (trunc_int v))))
       \<and> index_to_mat ! nat (trunc_int v) = material_of_draw v"
proof (intro conjI allI impI)
  show "length index_to_mat = 7" by (simp add: index_to_mat_def)
  show "map (count_list index_to_mat) [LAMBERT, LAMBERT_CHECKERBOARD, METAL, DIELECTRIC, LIGHT]
           = [2, 2, 1, 1, 1]"
    by (simp add: index_to_mat_def)
  show "trunc_int v = int k \<longleftrightarrow> real k \<le> v \<and> v < real k + 1" for k
    using assms(3) by (simp add: trunc_int_def floor_eq_iff)
  have "pick_material v = Inr (index_to_mat ! nat (trunc_int v))"
    by (rule pick_material_slot(1)[OF assms(3,4)])
  then show "stored_material hsv_to_rgb i buf g
           = Some (real (material_code (index_to_mat ! nat (trunc_int v))))"
    unfolding assms(2) by (rule sphere_body_stores_material[OF assms(1) _ assms(5)])
  show "index_to_mat ! nat (trunc_int v) = material_of_draw v"
    by (rule index_to_mat_kind[OF assms(3,4)])
qed

theorem material_slots_witness:
  "place_sphere (positions (initial_spheres (Vector4 0 0 0 0))) 1
       (fst (random_uniform 0.5 1.0 (0 ## 0 ## 0 ## 7 / 8 ## zero_source)))
       (snd (random_uniform 0.5 1.0 (0 ## 0 ## 0 ## 7 / 8 ## zero_source)))
     = Some (Vector2 (- 6) 0, 7 / 8 ## zero_source)
   \<and> fst (random_uniform 0 (real (length index_to_mat)) (7 / 8 ## zero_source)) = 49 / 8
   \<and> 1 < length (materials (initial_spheres (Vector4 0 0 0 0)))
   \<and> trunc_int (49 / 8) = 6
   \<and> stored_material grey_of_value 1 (initial_spheres (Vector4 0 0 0 0))
        (0 ## 0 ## 0 ## 7 / 8 ## zero_source) = Some (real (material_code LIGHT))"
proof -
  let ?g = "0 ## 0 ## 0 ## 7 / 8 ## zero_source"
  let ?buf = "initial_spheres (Vector4 0 0 0 0)"
  have placed: "place_sphere (positions ?buf) 1 (fst (random_uniform 0.5 1.0 ?g))
                  (snd (random_uniform 0.5 1.0 ?g)) = Some (Vector2 (- 6) 0, 7 / 8 ## zero_source)"
  proof -
    have "candidate (0 ## 0 ## 7 / 8 ## zero_source) = (Vector2 (- 6) 0, 7 / 8 ## zero_source)"
      by (simp add: candidate_def random_uniform_def Let_def)
    then show ?thesis
      by (simp add: random_uniform_def place_first_sphere del: One_nat_def)
  qed
  have v: "49 / 8 = fst (random_uniform 0 (real (length index_to_mat)) (7 / 8 ## zero_source))"
    by (simp add: random_uniform_def index_to_mat_def)
  have r: "(0::real) \<le> 49 / 8" "(49 / 8 :: real) < 7" by simp_all
  have i: "1 < length (materials ?buf)"
    by (simp add: initial_spheres_def SPHERES_COUNT_def)
  from material_slots[OF placed v r i, of grey_of_value]
  have st: "stored_material grey_of_value 1 ?buf ?g
           = Some (real (material_code (index_to_mat ! nat (trunc_int (49 / 8)))))"
    and kind: "index_to_mat ! nat (trunc_int (49 / 8)) = material_of_draw (49 / 8)"
    and slots: "\<forall>k<7. trunc_int (49 / 8) = int k \<longleftrightarrow> real k \<le> 49 / 8 \<and> (49 / 8 :: real) < real k + 1"
    by blast+
  from slots have "trunc_int (49 / 8) = int 6 \<longleftrightarrow> real 6 \<le> 49 / 8 \<and> (49 / 8 :: real) < real 6 + 1"
    by (rule allE[of _ 6]) simp
  then have t: "trunc_int (49 / 8) = 6" by simp
  have "material_of_draw (49 / 8) = LIGHT" by (simp add: material_of_draw_def)
  with st kind have "stored_material grey_of_value 1 ?buf ?g = Some (real (material_code LIGHT))"
    by simp
  with placed v[symmetric] i t show ?thesis by simp
qed

section \<open>The frame\<close>

lemma quiet_iff:
  "quiet s s' \<longleftrightarrow>
     (\<exists>evs. trace s' = trace s @ evs \<and> StepTick \<notin> set evs \<and> filter is_dispatch evs = [] \<and>
            step (config s') = (if ResetRendering \<in> set evs then 1 else step (config s)))"
proof
  assume "quiet s s'"
  then show "\<exists>evs. trace s' = trace s @ evs \<and> StepTick \<notin> set evs \<and> filter is_dispatch evs = [] \<and>
            step (config s') = (if ResetRendering \<in> set evs then 1 else step (config s))"
    unfolding quiet_def by (intro exI[of _ "frame_events s s'"])
next
  assume "\<exists>evs. trace s' = trace s @ evs \<and> StepTick \<notin> set evs \<and> filter is_dispatch evs = [] \<and>
            step (config s') = (if ResetRendering \<in> set evs then 1 else step (config s))"
  then obtain evs where e: "trace s' = trace s @ evs" "StepTick \<notin> set evs"
    "filter is_dispatch evs = []"
    "step (config s') = (if ResetRendering \<in> set evs then 1 else step (config s))" by blast
  have "frame_events s s' = evs" using e(1) by (simp add: frame_events_def)
  with e show "quiet s s'" by (simp add: quiet_def)
qed

lemma quiet_refl: "quiet s s"
  by (simp add: quiet_iff)

lemma quiet_trans:
  assumes "quiet s s'" "quiet s' s''"
  shows "quiet s s''"
proof -
  from assms(1) obtain e1 where e1: "trace s' = trace s @ e1" "StepTick \<notin> set e1"
    "filter is_dispatch e1 = []"
    "step (config s') = (if ResetRendering \<in> set e1 then 1 else step (config s))"
    unfolding quiet_iff by blast
  from assms(2) obtain e2 where e2: "trace s'' = trace s' @ e2" "StepTick \<notin> set e2"
    "filter is_dispatch e2 = []"
    "step (config s'') = (if ResetRendering \<in> set e2 then 1 else step (config s'))"
    unfolding quiet_iff by blast
  show ?thesis
    unfolding quiet_iff
  proof (intro exI[of _ "e1 @ e2"] conjI)
    show "trace s'' = trace s @ e1 @ e2" using e1(1) e2(1) by simp
    show "StepTick \<notin> set (e1 @ e2)" using e1(2) e2(2) by simp
    show "filter is_dispatch (e1 @ e2) = []" using e1(3) e2(3) by simp
    show "step (config s'') = (if ResetRendering \<in> set (e1 @ e2) then 1 else step (config s))"
      using e1(4) e2(4) by simp
  qed
qed

lemma quiet_silent:
  "trace s' = trace s \<Longrightarrow> step (config s') = step (config s) \<Longrightarrow> quiet s s'"
  by (simp add: quiet_iff)

lemma quiet_reset_rendering:
  "trace s1 = trace s \<Longrightarrow> quiet s (reset_rendering s1)"
  unfolding quiet_iff
  by (intro exI[of _ "[ResetRendering]"]) (simp add: reset_rendering_def)

lemma quiet_event_loop: "quiet s (event_loop inp s)"
  by (rule quiet_silent) (simp_all add: event_loop_def)

lemma quiet_handle_esc: "quiet s (handle_esc inp s)"
  by (rule quiet_silent) (simp_all add: handle_esc_def)

lemma quiet_handle_f1: "quiet s (handle_f1 inp s)"
  by (rule quiet_silent) (simp_all add: handle_f1_def)

lemma quiet_handle_f2:
  assumes "handle_f2 h inp s = Some (Inr s')"
  shows "quiet s s'"
proof (cases "key_f2 inp")
  case False
  with assms show ?thesis by (simp add: handle_f2_def quiet_refl)
next
  case True
  with assms obtain buf g where
    "s' = (reset_rendering s)\<lparr> spheres := buf, rng_state := g,
           trace := trace (reset_rendering s) @ [ResetSpheres] \<rparr>"
    by (auto simp: handle_f2_def Let_def split: option.splits sum.splits)
  then show ?thesis
    unfolding quiet_iff
    by (intro exI[of _ "[ResetRendering, ResetSpheres]"]) (simp add: reset_rendering_def)
qed

lemma quiet_handle_scroll: "quiet s (handle_scroll inp s)"
  by (simp add: handle_scroll_def Let_def quiet_refl quiet_reset_rendering)

lemma quiet_handle_drag: "quiet s (handle_drag c inp s)"
  by (simp add: handle_drag_def drag_update_def Let_def quiet_refl quiet_reset_rendering)

lemma quiet_react_to_inputs:
  assumes "react_to_inputs h c inp s = Some (Inr s')"
  shows "quiet s s'"
proof (cases "ui_registering_input inp")
  case True
  with assms show ?thesis by (simp add: react_to_inputs_def quiet_refl)
next
  case False
  with assms obtain s1 where
    f2: "handle_f2 h inp (handle_f1 inp (handle_esc inp s)) = Some (Inr s1)" and
    s': "s' = handle_drag c inp (handle_scroll inp s1)"
    by (auto simp: react_to_inputs_def split: option.splits sum.splits)
  have "quiet s (handle_f1 inp (handle_esc inp s))"
    by (rule quiet_trans[OF quiet_handle_esc quiet_handle_f1])
  then have "quiet s s1" by (rule quiet_trans[OF _ quiet_handle_f2[OF f2]])
  then have "quiet s (handle_scroll inp s1)" by (rule quiet_trans[OF _ quiet_handle_scroll])
  then show ?thesis unfolding s' by (rule quiet_trans[OF _ quiet_handle_drag])
qed

lemma quiet_update_camera: "quiet s (update_camera s)"
  by (rule quiet_silent) (simp_all add: update_camera_def)

lemma quiet_hot_reload: "quiet s (hot_reload inp s)"
proof (cases "CompareFileTime (last_write_time inp) (stored_file_time s) \<noteq> 0")
  case False
  then show ?thesis by (simp add: hot_reload_def quiet_refl)
next
  case True
  show ?thesis
  proof (cases "is_ready (compiled_shader inp)")
    case ready: True
    show ?thesis
      unfolding quiet_iff
      by (intro exI[of _ "[CompileShader, ReleaseShader (ray_trace_shader s), ResetRendering]"])
         (use True ready in \<open>simp add: hot_reload_def Let_def reset_rendering_def\<close>)
  next
    case failed: False
    show ?thesis
      unfolding quiet_iff
      by (intro exI[of _ "[CompileShader]"])
         (use True failed in \<open>simp add: hot_reload_def Let_def\<close>)
  qed
qed

lemma quiet_ui_rendering: "quiet s (ui_rendering inp s)"
proof (cases "show_ui s")
  case False
  then show ?thesis by (simp add: ui_rendering_def quiet_refl)
next
  case True
  let ?s1 = "s\<lparr> config := (config s)
                    \<lparr> ambient_light_intensity := snd (slider_ambient inp),
                      sphere_lights_intensity := snd (slider_lights inp),
                      metal_roughness := snd (slider_roughness inp),
                      refractive_index := snd (slider_refractive inp),
                      dof_radius := snd (slider_dof_radius inp),
                      dof_focal_plane := snd (slider_dof_focal inp) \<rparr> \<rparr>"
  have a: "quiet s ?s1" by (rule quiet_silent) simp_all
  have b: "quiet s (reset_rendering ?s1)" by (rule quiet_reset_rendering) simp
  from True a b show ?thesis by (simp add: ui_rendering_def Let_def)
qed

lemma frame_shape:
  assumes "frame h c inp s = Some (Inr s')"
  shows "\<exists>e1 e2. trace s' = trace s @ StepTick # e1 @
             RunCompute (render_target_width div word_of_nat GROUP_SIZE_X)
                        (render_target_height div word_of_nat GROUP_SIZE_Y) 1 # e2
           \<and> StepTick \<notin> set e1 \<and> StepTick \<notin> set e2
           \<and> filter is_dispatch e1 = [] \<and> filter is_dispatch e2 = []
           \<and> step (config s') =
               (if ResetRendering \<in> set e1 \<or> ResetRendering \<in> set e2 then 1
                else step (config s) + 1)"
proof -
  let ?t = "step_tick s"
  from assms obtain s1 where
    r: "react_to_inputs h c inp (event_loop inp ?t) = Some (Inr s1)" and
    s': "s' = ui_rendering inp (ray_tracing (hot_reload inp (update_camera s1)))"
    by (auto simp: frame_def split: option.splits sum.splits)
  let ?s4 = "hot_reload inp (update_camera s1)"
  have "quiet ?t s1"
    by (rule quiet_trans[OF quiet_event_loop quiet_react_to_inputs[OF r]])
  then have "quiet ?t (update_camera s1)" by (rule quiet_trans[OF _ quiet_update_camera])
  then have "quiet ?t ?s4" by (rule quiet_trans[OF _ quiet_hot_reload])
  then obtain e1 where e1: "trace ?s4 = trace ?t @ e1" "StepTick \<notin> set e1"
    "filter is_dispatch e1 = []"
    "step (config ?s4) = (if ResetRendering \<in> set e1 then 1 else step (config ?t))"
    unfolding quiet_iff by blast
  from quiet_ui_rendering[of "ray_tracing ?s4" inp]
  obtain e2 where e2: "trace s' = trace (ray_tracing ?s4) @ e2" "StepTick \<notin> set e2"
    "filter is_dispatch e2 = []"
    "step (config s') = (if ResetRendering \<in> set e2 then 1 else step (config (ray_tracing ?s4)))"
    unfolding quiet_iff s' by blast
  have t: "trace ?t = trace s @ [StepTick]" "step (config ?t) = step (config s) + 1"
    by (simp_all add: step_tick_def)
  have rt: "trace (ray_tracing ?s4) = trace ?s4 @
      [RunCompute (render_target_width div word_of_nat GROUP_SIZE_X)
                  (render_target_height div word_of_nat GROUP_SIZE_Y) 1]"
    "step (config (ray_tracing ?s4)) = step (config ?s4)"
    by (simp_all add: ray_tracing_def)
  show ?thesis
    by (intro exI[of _ e1] exI[of _ e2]) (simp add: e1 e2 t rt)
qed

lemma frame_events_append: "trace s' = trace s @ evs \<Longrightarrow> frame_events s s' = evs"
  by (simp add: frame_events_def)

lemma frame_tail:
  assumes "frame h c inp s = Some (Inr s')"
  obtains s1 where "react_to_inputs h c inp (event_loop inp (step_tick s)) = Some (Inr s1)"
    and "s' = ui_rendering inp (ray_tracing (hot_reload inp (update_camera s1)))"
  using assms by (auto simp: frame_def split: option.splits sum.splits)

lemmas frame_defs =
  frame_def step_tick_def event_loop_def react_to_inputs_def handle_esc_def handle_f1_def
  handle_f2_def handle_scroll_def handle_drag_def drag_update_def reset_rendering_def
  update_camera_def hot_reload_def CompareFileTime_def ray_tracing_def ui_rendering_def Let_def
  render_target_width_def render_target_height_def window_width_def window_height_def
  GROUP_SIZE_X_def GROUP_SIZE_Y_def PIHALF_def MOUSE_SPEED_def

lemmas input_defs = idle_input_def start_state_def initial_state_def

lemma trace_start_state: "trace (start_state t0) = []"
  by (simp add: input_defs)

lemma frame_scroll:
  "frame h c scroll_input (start_state 0) =
     Some (Inr ((start_state 0)
       \<lparr> config := (config (start_state 0))
            \<lparr> camera_pos := camera_position 0 (polar (start_state 0)) (99 / 10), step := 1 \<rparr>,
         radius := 99 / 10,
         trace := [StepTick, ResetRendering,
                   RunCompute 20 15 1] \<rparr>))"
  by (simp add: frame_def scroll_input_def idle_input_def start_state_def initial_state_def
      step_tick_def event_loop_def react_to_inputs_def handle_esc_def handle_f1_def
      handle_f2_def handle_scroll_def handle_drag_def reset_rendering_def update_camera_def
      hot_reload_def CompareFileTime_def ray_tracing_def ui_rendering_def Let_def
      render_target_width_def render_target_height_def window_width_def window_height_def
      GROUP_SIZE_X_def GROUP_SIZE_Y_def PIHALF_def)

lemma frame_trace_scroll:
  "frame_trace h c scroll_input (start_state 0) = Some [StepTick, ResetRendering, RunCompute 20 15 1]"
  by (simp add: frame_trace_def frame_scroll frame_events_def trace_start_state)

text \<open>
  C3, as the code has it: in every frame the step counter is ticked first and every
  accumulation reset of the frame is applied after the tick, so a frame in which a reset
  occurs ends with \<open>step = 1\<close>.
\<close>

theorem frame_tick_then_resets:
  assumes "frame hsv_to_rgb clamp inp s = Some (Inr s')"
  shows "trace s' = trace s @ frame_events s s'
       \<and> hd (frame_events s s') = StepTick
       \<and> StepTick \<notin> set (tl (frame_events s s'))
       \<and> (ResetRendering \<in> set (frame_events s s') \<longrightarrow> step (config s') = 1)"
proof -
  from frame_shape[OF assms] obtain e1 e2 where
    tr: "trace s' = trace s @ StepTick # e1 @
             RunCompute (render_target_width div word_of_nat GROUP_SIZE_X)
                        (render_target_height div word_of_nat GROUP_SIZE_Y) 1 # e2" and
    nt: "StepTick \<notin> set e1" "StepTick \<notin> set e2" and
    st: "step (config s') =
           (if ResetRendering \<in> set e1 \<or> ResetRendering \<in> set e2 then 1
            else step (config s) + 1)"
    by blast
  have ev: "frame_events s s' = StepTick # e1 @
             RunCompute (render_target_width div word_of_nat GROUP_SIZE_X)
                        (render_target_height div word_of_nat GROUP_SIZE_Y) 1 # e2"
    by (rule frame_events_append[OF tr])
  show ?thesis using tr nt st by (auto simp: ev)
qed

theorem frame_tick_then_resets_witness:
  "frame grey_of_value saturating_clamp scroll_input (start_state 0) \<noteq> None
   \<and> frame_trace grey_of_value saturating_clamp scroll_input (start_state 0)
       = Some [StepTick, ResetRendering, RunCompute 20 15 1]"
  using frame_tick_then_resets[OF frame_scroll[of grey_of_value saturating_clamp]]
  by (simp add: frame_trace_scroll frame_scroll)

text \<open>
  In a frame with a scroll input the reset comes after the tick: the resets are not applied
  before the tick.
\<close>

theorem frame_reset_after_tick:
  "frame_trace grey_of_value saturating_clamp scroll_input (start_state 0)
     = Some [StepTick, ResetRendering, RunCompute 20 15 1]
   \<and> \<not> resets_before_tick [StepTick, ResetRendering, RunCompute 20 15 1]"
  by (simp add: frame_trace_scroll resets_before_tick_def)

subsection \<open>The dispatch and the camera\<close>

lemma handle_f2_source:
  "spheres (handle_f1 inp (handle_esc inp (event_loop inp (step_tick s)))) = spheres s"
  "rng_state (handle_f1 inp (handle_esc inp (event_loop inp (step_tick s)))) = rng_state s"
  by (simp_all add: handle_f1_def handle_esc_def event_loop_def step_tick_def)

lemma frame_None_iff:
  "frame h c inp s = None \<longleftrightarrow>
     \<not> ui_registering_input inp \<and> key_f2 inp
     \<and> reset_spheres h (spheres s) (rng_state s) = None"
  by (auto simp: frame_def react_to_inputs_def handle_f2_def Let_def reset_rendering_def
      handle_f2_source split: option.splits sum.splits)

lemma frame_Inl_iff:
  "frame h c inp s = Some (Inl e) \<longleftrightarrow>
     \<not> ui_registering_input inp \<and> key_f2 inp
     \<and> reset_spheres h (spheres s) (rng_state s) = Some (Inl e)"
  by (auto simp: frame_def react_to_inputs_def handle_f2_def Let_def reset_rendering_def
      handle_f2_source split: option.splits sum.splits)

lemma dispatch_grid:
  "render_target_width div word_of_nat GROUP_SIZE_X
     = word_of_int \<lceil>real (unat render_target_width) / real GROUP_SIZE_X\<rceil>"
  "render_target_height div word_of_nat GROUP_SIZE_Y
     = word_of_int \<lceil>real (unat render_target_height) / real GROUP_SIZE_Y\<rceil>"
  by (simp_all add: render_target_width_def render_target_height_def window_width_def
      window_height_def GROUP_SIZE_X_def GROUP_SIZE_Y_def)

lemma frame_dispatches:
  assumes "frame h c inp s = Some (Inr s')"
  shows "filter is_dispatch (frame_events s s') =
           [RunCompute (word_of_int \<lceil>real (unat render_target_width) / real GROUP_SIZE_X\<rceil>)
                       (word_of_int \<lceil>real (unat render_target_height) / real GROUP_SIZE_Y\<rceil>) 1]"
proof -
  from frame_shape[OF assms] obtain e1 e2 where
    tr: "trace s' = trace s @ StepTick # e1 @
             RunCompute (render_target_width div word_of_nat GROUP_SIZE_X)
                        (render_target_height div word_of_nat GROUP_SIZE_Y) 1 # e2" and
    nd: "filter is_dispatch e1 = []" "filter is_dispatch e2 = []"
    by blast
  have "filter is_dispatch (frame_events s s') =
          [RunCompute (render_target_width div word_of_nat GROUP_SIZE_X)
                      (render_target_height div word_of_nat GROUP_SIZE_Y) 1]"
    unfolding frame_events_append[OF tr] using nd by simp
  then show ?thesis by (simp only: dispatch_grid)
qed

lemma frame_idle:
  "frame h c idle_input (start_state 0) =
     Some (Inr ((start_state 0)
       \<lparr> config := (config (start_state 0))
            \<lparr> camera_pos := camera_position 0 (polar (start_state 0)) 10, step := 1 \<rparr>,
         trace := [StepTick, RunCompute 20 15 1] \<rparr>))"
  by (simp add: input_defs frame_defs)

lemma frame_tail2:
  assumes "frame h c inp s = Some (Inr s')"
  obtains s1 where "s' = ui_rendering inp (ray_tracing (hot_reload inp (update_camera s1)))"
  using assms by (auto simp: frame_def split: option.splits sum.splits)

lemma camera_after_update:
  "camera_pos (config (ui_rendering inp (ray_tracing (hot_reload inp (update_camera s1)))))
     = camera_position (azimuth s1) (polar s1) (radius s1)"
  "azimuth (ui_rendering inp (ray_tracing (hot_reload inp (update_camera s1)))) = azimuth s1"
  "polar (ui_rendering inp (ray_tracing (hot_reload inp (update_camera s1)))) = polar s1"
  "radius (ui_rendering inp (ray_tracing (hot_reload inp (update_camera s1)))) = radius s1"
  by (simp_all add: ui_rendering_def ray_tracing_def hot_reload_def update_camera_def
      reset_rendering_def Let_def)

lemma frame_writes_camera:
  assumes "frame h c inp s = Some (Inr s')"
  shows "camera_pos (config s') = camera_position (azimuth s') (polar s') (radius s')"
proof -
  from assms obtain s1 where
    s': "s' = ui_rendering inp (ray_tracing (hot_reload inp (update_camera s1)))"
    by (rule frame_tail2)
  show ?thesis unfolding s' by (simp only: camera_after_update)
qed

lemma camera_position_formula:
  "camera_position az po rad
     = Vector3 (rad * (sin az * sin po)) (rad * cos po) (rad * (cos az * sin po))"
  by (simp add: camera_position_def v3_scale_def mult.commute)

lemma one_minus_cos_le: "\<bar>1 - cos x\<bar> \<le> \<bar>x\<bar>" for x :: real
proof -
  have "1 - cos x = 2 * (sin (x / 2))\<^sup>2"
    using cos_double_sin[of "x / 2"] by simp
  also have "\<dots> = 2 * (\<bar>sin (x / 2)\<bar> * \<bar>sin (x / 2)\<bar>)"
    by (simp add: power2_eq_square)
  also have "\<dots> \<le> 2 * (\<bar>x / 2\<bar> * 1)"
    by (intro mult_left_mono mult_mono abs_sin_x_le_abs_x) simp_all
  finally have "1 - cos x \<le> \<bar>x\<bar>" by simp
  moreover have "0 \<le> 1 - cos x" by simp
  ultimately show ?thesis by simp
qed

lemma camera_position_near:
  fixes az po rad :: real
  assumes az: "\<bar>az\<bar> \<le> 1 / 1000000" and po: "\<bar>po - pi / 2\<bar> \<le> 1 / 1000000"
    and rad: "\<bar>rad - 10\<bar> \<le> 1 / 100000"
  shows "\<bar>v3x (camera_position az po rad) - 0\<bar> \<le> 1 / 10000"
    and "\<bar>v3y (camera_position az po rad) - 0\<bar> \<le> 1 / 10000"
    and "\<bar>v3z (camera_position az po rad) - 10\<bar> \<le> 1 / 10000"
proof -
  have r: "\<bar>rad\<bar> \<le> 11" using rad by linarith
  have saz: "\<bar>sin az\<bar> \<le> 1 / 1000000" using abs_sin_x_le_abs_x[of az] az by linarith
  have "cos po = sin (pi / 2 - po)" using cos_sin_eq[of po] by simp
  then have cpo: "\<bar>cos po\<bar> \<le> 1 / 1000000"
    using abs_sin_x_le_abs_x[of "pi / 2 - po"] po by (simp add: abs_minus_commute)
  have "sin po = cos (pi / 2 - po)" using sin_cos_eq[of po] by simp
  then have spo: "\<bar>1 - sin po\<bar> \<le> 1 / 1000000"
    using one_minus_cos_le[of "pi / 2 - po"] po by (simp add: abs_minus_commute)
  have caz: "\<bar>1 - cos az\<bar> \<le> 1 / 1000000" using one_minus_cos_le[of az] az by linarith
  have x1: "\<bar>sin az * sin po\<bar> \<le> 1 / 1000000"
  proof -
    have "\<bar>sin az * sin po\<bar> = \<bar>sin az\<bar> * \<bar>sin po\<bar>" by (simp add: abs_mult)
    also have "\<dots> \<le> (1 / 1000000) * 1" by (intro mult_mono saz) simp_all
    finally show ?thesis by simp
  qed
  have "\<bar>rad * (sin az * sin po)\<bar> = \<bar>rad\<bar> * \<bar>sin az * sin po\<bar>" by (simp add: abs_mult)
  also have "\<dots> \<le> 11 * (1 / 1000000)" by (intro mult_mono r x1) simp_all
  finally show "\<bar>v3x (camera_position az po rad) - 0\<bar> \<le> 1 / 10000"
    by (simp add: camera_position_formula)
  have "\<bar>rad * cos po\<bar> = \<bar>rad\<bar> * \<bar>cos po\<bar>" by (simp add: abs_mult)
  also have "\<dots> \<le> 11 * (1 / 1000000)" by (intro mult_mono r cpo) simp_all
  finally show "\<bar>v3y (camera_position az po rad) - 0\<bar> \<le> 1 / 10000"
    by (simp add: camera_position_formula)
  have "1 - cos az * sin po = (1 - cos az) + cos az * (1 - sin po)" by (simp add: algebra_simps)
  then have "\<bar>1 - cos az * sin po\<bar> \<le> \<bar>1 - cos az\<bar> + \<bar>cos az * (1 - sin po)\<bar>"
    by (simp only: abs_triangle_ineq)
  also have "\<bar>cos az * (1 - sin po)\<bar> = \<bar>cos az\<bar> * \<bar>1 - sin po\<bar>" by (simp add: abs_mult)
  also have "\<bar>1 - cos az\<bar> + \<bar>cos az\<bar> * \<bar>1 - sin po\<bar> \<le> 1 / 1000000 + 1 * (1 / 1000000)"
    by (intro add_mono mult_mono caz spo) simp_all
  finally have z1: "\<bar>1 - cos az * sin po\<bar> \<le> 2 / 1000000" by simp
  have "rad * (cos az * sin po) - 10 = (rad - 10) - rad * (1 - cos az * sin po)"
    by (simp add: algebra_simps)
  then have "\<bar>rad * (cos az * sin po) - 10\<bar>
      \<le> \<bar>rad - 10\<bar> + \<bar>rad * (1 - cos az * sin po)\<bar>"
    by (simp only: abs_triangle_ineq4)
  also have "\<bar>rad * (1 - cos az * sin po)\<bar> = \<bar>rad\<bar> * \<bar>1 - cos az * sin po\<bar>"
    by (simp add: abs_mult)
  also have "\<bar>rad - 10\<bar> + \<bar>rad\<bar> * \<bar>1 - cos az * sin po\<bar> \<le> 1 / 100000 + 11 * (2 / 1000000)"
    by (intro add_mono mult_mono rad r z1) simp_all
  finally show "\<bar>v3z (camera_position az po rad) - 10\<bar> \<le> 1 / 10000"
    by (simp add: camera_position_formula)
qed

lemma frame_side_view:
  "frame h c idle_input side_view_state =
     Some (Inr (side_view_state
       \<lparr> config := (config side_view_state)
            \<lparr> camera_pos := Vector3 0 0 10, step := 1 \<rparr>,
         trace := [StepTick, RunCompute 20 15 1] \<rparr>))"
  by (simp add: side_view_state_def input_defs frame_defs camera_position_formula)

text \<open>
  C6: a frame fails to return, or ends in an error, only when the scene regeneration asked
  for with F2 does, and every other frame dispatches the compute shader exactly once, over a
  grid of
  \<open>\<lceil>width / GROUP_SIZE_X\<rceil>\<close> by \<open>\<lceil>height / GROUP_SIZE_Y\<rceil>\<close> by 1 groups for the render target of
  640 by 480.
\<close>

theorem frame_dispatch_grid:
  "(frame hsv_to_rgb clamp inp s = None \<longleftrightarrow>
      \<not> ui_registering_input inp \<and> key_f2 inp
      \<and> reset_spheres hsv_to_rgb (spheres s) (rng_state s) = None)
   \<and> (frame hsv_to_rgb clamp inp s = Some (Inl e) \<longleftrightarrow>
      \<not> ui_registering_input inp \<and> key_f2 inp
      \<and> reset_spheres hsv_to_rgb (spheres s) (rng_state s) = Some (Inl e))
   \<and> (frame hsv_to_rgb clamp inp s = Some (Inr s') \<longrightarrow>
        filter is_dispatch (frame_events s s') =
          [RunCompute (word_of_int \<lceil>real (unat render_target_width) / real GROUP_SIZE_X\<rceil>)
                      (word_of_int \<lceil>real (unat render_target_height) / real GROUP_SIZE_Y\<rceil>) 1])
   \<and> unat render_target_width = 640 \<and> unat render_target_height = 480"
proof -
  have "unat render_target_width = 640" "unat render_target_height = 480"
    by (simp_all add: render_target_width_def render_target_height_def window_width_def
        window_height_def)
  with frame_None_iff[of hsv_to_rgb clamp inp s] frame_Inl_iff[of hsv_to_rgb clamp inp s e]
    frame_dispatches[of hsv_to_rgb clamp inp s s']
  show ?thesis by blast
qed

theorem frame_dispatch_grid_witness:
  "\<not> key_f2 idle_input
   \<and> frame grey_of_value saturating_clamp idle_input (start_state 0) \<noteq> None
   \<and> frame_trace grey_of_value saturating_clamp idle_input (start_state 0)
       = Some [StepTick, RunCompute 20 15 1]
   \<and> map_option (filter is_dispatch)
        (frame_trace grey_of_value saturating_clamp idle_input (start_state 0))
       = Some [RunCompute (word_of_int \<lceil>real (unat render_target_width) / real GROUP_SIZE_X\<rceil>)
                          (word_of_int \<lceil>real (unat render_target_height) / real GROUP_SIZE_Y\<rceil>) 1]"
proof -
  let ?s' = "(start_state 0)
       \<lparr> config := (config (start_state 0))
            \<lparr> camera_pos := camera_position 0 (polar (start_state 0)) 10, step := 1 \<rparr>,
         trace := [StepTick, RunCompute 20 15 1] \<rparr>"
  note grid = frame_dispatch_grid[of grey_of_value saturating_clamp idle_input "start_state 0"
      IndexOutOfBounds ?s']
  have key: "\<not> key_f2 idle_input" by (simp add: idle_input_def)
  with grid have ret: "frame grey_of_value saturating_clamp idle_input (start_state 0) \<noteq> None"
    by blast
  have run: "frame grey_of_value saturating_clamp idle_input (start_state 0) = Some (Inr ?s')"
    by (rule frame_idle)
  have ev: "frame_events (start_state 0) ?s' = [StepTick, RunCompute 20 15 1]"
    by (simp add: frame_events_def trace_start_state)
  have tr: "frame_trace grey_of_value saturating_clamp idle_input (start_state 0)
       = Some (frame_events (start_state 0) ?s')"
    by (simp add: frame_trace_def run)
  from grid run have "filter is_dispatch (frame_events (start_state 0) ?s') =
          [RunCompute (word_of_int \<lceil>real (unat render_target_width) / real GROUP_SIZE_X\<rceil>)
                      (word_of_int \<lceil>real (unat render_target_height) / real GROUP_SIZE_Y\<rceil>) 1]"
    by blast
  then have "map_option (filter is_dispatch)
        (frame_trace grey_of_value saturating_clamp idle_input (start_state 0))
       = Some [RunCompute (word_of_int \<lceil>real (unat render_target_width) / real GROUP_SIZE_X\<rceil>)
                          (word_of_int \<lceil>real (unat render_target_height) / real GROUP_SIZE_Y\<rceil>) 1]"
    unfolding tr by simp
  moreover have "frame_trace grey_of_value saturating_clamp idle_input (start_state 0)
       = Some [StepTick, RunCompute 20 15 1]"
    unfolding tr ev ..
  ultimately show ?thesis using key ret by blast
qed

text \<open>
  C8: a frame fails to return, or ends in an error, only when the scene regeneration asked
  for with F2 does, and every other frame leaves in \<open>config.camera_pos\<close> the position
  \<open>radius * (sin azimuth * sin polar, cos polar, cos azimuth * sin polar)\<close>; at azimuth 0, polar
  \<open>\<pi>/2\<close> and radius 10 it is (0, 0, 10), and for angles within \<open>10 ^ (- 6)\<close> and a radius within
  \<open>10 ^ (- 5)\<close> of these values every component is within \<open>10 ^ (- 4)\<close> of (0, 0, 10).
\<close>

theorem frame_camera_position:
  "(frame hsv_to_rgb clamp inp s = None \<longleftrightarrow>
      \<not> ui_registering_input inp \<and> key_f2 inp
      \<and> reset_spheres hsv_to_rgb (spheres s) (rng_state s) = None)
   \<and> (frame hsv_to_rgb clamp inp s = Some (Inl e) \<longleftrightarrow>
      \<not> ui_registering_input inp \<and> key_f2 inp
      \<and> reset_spheres hsv_to_rgb (spheres s) (rng_state s) = Some (Inl e))
   \<and> (frame hsv_to_rgb clamp inp s = Some (Inr s') \<longrightarrow>
        camera_pos (config s')
          = Vector3 (radius s' * (sin (azimuth s') * sin (polar s')))
                    (radius s' * cos (polar s'))
                    (radius s' * (cos (azimuth s') * sin (polar s'))))
   \<and> (frame hsv_to_rgb clamp inp s = Some (Inr s')
        \<and> azimuth s' = 0 \<and> polar s' = pi / 2 \<and> radius s' = 10 \<longrightarrow>
        camera_pos (config s') = Vector3 0 0 10)
   \<and> (frame hsv_to_rgb clamp inp s = Some (Inr s')
        \<and> \<bar>azimuth s'\<bar> \<le> 1 / 1000000 \<and> \<bar>polar s' - pi / 2\<bar> \<le> 1 / 1000000
        \<and> \<bar>radius s' - 10\<bar> \<le> 1 / 100000 \<longrightarrow>
        \<bar>v3x (camera_pos (config s')) - 0\<bar> \<le> 1 / 10000
        \<and> \<bar>v3y (camera_pos (config s')) - 0\<bar> \<le> 1 / 10000
        \<and> \<bar>v3z (camera_pos (config s')) - 10\<bar> \<le> 1 / 10000)"
proof (intro conjI impI)
  show "frame hsv_to_rgb clamp inp s = None \<longleftrightarrow>
      \<not> ui_registering_input inp \<and> key_f2 inp
      \<and> reset_spheres hsv_to_rgb (spheres s) (rng_state s) = None"
    by (rule frame_None_iff)
next
  show "frame hsv_to_rgb clamp inp s = Some (Inl e) \<longleftrightarrow>
      \<not> ui_registering_input inp \<and> key_f2 inp
      \<and> reset_spheres hsv_to_rgb (spheres s) (rng_state s) = Some (Inl e)"
    by (rule frame_Inl_iff)
next
  assume "frame hsv_to_rgb clamp inp s = Some (Inr s')"
  from frame_writes_camera[OF this]
  show "camera_pos (config s')
          = Vector3 (radius s' * (sin (azimuth s') * sin (polar s')))
                    (radius s' * cos (polar s'))
                    (radius s' * (cos (azimuth s') * sin (polar s')))"
    by (simp only: camera_position_formula)
next
  assume a: "frame hsv_to_rgb clamp inp s = Some (Inr s')
        \<and> azimuth s' = 0 \<and> polar s' = pi / 2 \<and> radius s' = 10"
  then have f: "frame hsv_to_rgb clamp inp s = Some (Inr s')" and
    v: "azimuth s' = 0" "polar s' = pi / 2" "radius s' = 10" by blast+
  have "camera_pos (config s') = camera_position 0 (pi / 2) 10"
    using frame_writes_camera[OF f] unfolding v .
  then show "camera_pos (config s') = Vector3 0 0 10"
    by (simp add: camera_position_formula)
next
  assume a: "frame hsv_to_rgb clamp inp s = Some (Inr s')
        \<and> \<bar>azimuth s'\<bar> \<le> 1 / 1000000 \<and> \<bar>polar s' - pi / 2\<bar> \<le> 1 / 1000000
        \<and> \<bar>radius s' - 10\<bar> \<le> 1 / 100000"
  then have w: "camera_pos (config s') = camera_position (azimuth s') (polar s') (radius s')"
    using frame_writes_camera[of hsv_to_rgb clamp inp s s'] by simp
  from a have h: "\<bar>azimuth s'\<bar> \<le> 1 / 1000000" "\<bar>polar s' - pi / 2\<bar> \<le> 1 / 1000000"
    "\<bar>radius s' - 10\<bar> \<le> 1 / 100000" by simp_all
  show "\<bar>v3x (camera_pos (config s')) - 0\<bar> \<le> 1 / 10000"
    unfolding w by (rule camera_position_near(1)[OF h])
  show "\<bar>v3y (camera_pos (config s')) - 0\<bar> \<le> 1 / 10000"
    unfolding w by (rule camera_position_near(2)[OF h])
  show "\<bar>v3z (camera_pos (config s')) - 10\<bar> \<le> 1 / 10000"
    unfolding w by (rule camera_position_near(3)[OF h])
qed

theorem frame_camera_position_witness:
  "\<not> key_f2 idle_input
   \<and> frame grey_of_value saturating_clamp idle_input side_view_state \<noteq> None
   \<and> azimuth side_view_state = 0 \<and> polar side_view_state = pi / 2 \<and> radius side_view_state = 10
   \<and> frame_camera grey_of_value saturating_clamp idle_input side_view_state
       = Some (Vector3 0 0 10)"
proof -
  let ?s' = "side_view_state
       \<lparr> config := (config side_view_state)
            \<lparr> camera_pos := Vector3 0 0 10, step := 1 \<rparr>,
         trace := [StepTick, RunCompute 20 15 1] \<rparr>"
  note cam = frame_camera_position[of grey_of_value saturating_clamp idle_input side_view_state
      IndexOutOfBounds ?s']
  have key: "\<not> key_f2 idle_input" by (simp add: idle_input_def)
  with cam have ret: "frame grey_of_value saturating_clamp idle_input side_view_state \<noteq> None"
    by blast
  have v: "azimuth side_view_state = 0" "polar side_view_state = pi / 2"
    "radius side_view_state = 10"
    by (simp_all add: side_view_state_def)
  have f: "frame grey_of_value saturating_clamp idle_input side_view_state = Some (Inr ?s')"
    by (rule frame_side_view)
  from cam
  have "frame grey_of_value saturating_clamp idle_input side_view_state = Some (Inr ?s')
        \<and> azimuth ?s' = 0 \<and> polar ?s' = pi / 2 \<and> radius ?s' = 10 \<longrightarrow>
        camera_pos (config ?s') = Vector3 0 0 10" by blast
  with f v have "camera_pos (config ?s') = Vector3 0 0 10" by simp
  with f have "frame_camera grey_of_value saturating_clamp idle_input side_view_state
       = Some (Vector3 0 0 10)"
    by (simp add: frame_camera_def)
  with key ret v show ?thesis by blast
qed

subsection \<open>Shader hot reloading\<close>

text \<open>
  C4: when the write time of the shader source differs from the stored one and the
  compilation fails, the active shader stays the same, the only event is the compilation (no
  reset, and the configuration with \<open>step\<close> is unchanged), the new write time is stored, and a
  second check with the same write time does nothing.
\<close>

theorem hot_reload_failure_keeps_shader:
  assumes "CompareFileTime (last_write_time inp) (stored_file_time s) \<noteq> 0"
    and "\<not> is_ready (compiled_shader inp)"
  shows "ray_trace_shader (hot_reload inp s) = ray_trace_shader s
       \<and> frame_events s (hot_reload inp s) = [CompileShader]
       \<and> config (hot_reload inp s) = config s
       \<and> stored_file_time (hot_reload inp s) = last_write_time inp
       \<and> hot_reload inp (hot_reload inp s) = hot_reload inp s"
  using assms
  by (simp add: hot_reload_def Let_def frame_events_def CompareFileTime_def)

theorem hot_reload_failure_keeps_shader_witness:
  "CompareFileTime (last_write_time failed_reload_input) (stored_file_time (start_state 0)) \<noteq> 0
   \<and> \<not> is_ready (compiled_shader failed_reload_input)
   \<and> ray_trace_shader (hot_reload failed_reload_input (start_state 0)) = ComputeShader 0 True
   \<and> frame_events (start_state 0) (hot_reload failed_reload_input (start_state 0))
       = [CompileShader]
   \<and> stored_file_time (hot_reload failed_reload_input (start_state 0)) = 7"
proof -
  have a: "CompareFileTime (last_write_time failed_reload_input)
             (stored_file_time (start_state 0)) \<noteq> 0"
    by (simp add: failed_reload_input_def input_defs CompareFileTime_def)
  have b: "\<not> is_ready (compiled_shader failed_reload_input)"
    by (simp add: failed_reload_input_def input_defs)
  from hot_reload_failure_keeps_shader[OF a b] a b show ?thesis
    by (simp add: failed_reload_input_def input_defs)
qed

lemma react_to_inputs_keeps_shader:
  assumes "react_to_inputs h c inp s = Some (Inr s')"
  shows "stored_file_time s' = stored_file_time s \<and> ray_trace_shader s' = ray_trace_shader s"
  using assms
  by (auto simp: react_to_inputs_def handle_f2_def handle_f1_def handle_esc_def
      handle_scroll_def handle_drag_def drag_update_def reset_rendering_def Let_def
      split: if_splits option.splits sum.splits)

lemma frame_first:
  "frame h c first_frame_input (start_state 0) =
     Some (Inr ((start_state 0)
       \<lparr> config := (config (start_state 0))
            \<lparr> camera_pos := camera_position 0 (polar (start_state 0)) 10, step := 1 \<rparr>,
         ray_trace_shader := ComputeShader 1 True,
         stored_file_time := 7,
         trace := [StepTick, CompileShader, ReleaseShader (ComputeShader 0 True),
                   ResetRendering, RunCompute 20 15 1] \<rparr>))"
  by (simp add: first_frame_input_def input_defs frame_defs)

text \<open>
  C10: the stored write time is whatever the uninitialised variable holds when the loop is
  entered. Whenever that value differs from the write time of the unchanged source, the first
  frame compiles the shader again, stores the write time, and on success replaces the shader
  and resets the accumulation.
\<close>

theorem first_frame_reloads:
  assumes "t0 \<noteq> last_write_time inp"
    and "frame hsv_to_rgb clamp inp (initial_state t0 shader buf g) = Some (Inr s')"
  shows "stored_file_time (initial_state t0 shader buf g) = t0
       \<and> CompileShader \<in> set (trace s')
       \<and> (is_ready (compiled_shader inp) \<longrightarrow>
            ray_trace_shader s' = compiled_shader inp
            \<and> ResetRendering \<in> set (trace s') \<and> step (config s') = 1)
       \<and> stored_file_time s' = last_write_time inp"
proof -
  let ?s0 = "initial_state t0 shader buf g"
  from assms(2) obtain s1 where
    r: "react_to_inputs hsv_to_rgb clamp inp (event_loop inp (step_tick ?s0)) = Some (Inr s1)" and
    s': "s' = ui_rendering inp (ray_tracing (hot_reload inp (update_camera s1)))"
    by (rule frame_tail)
  have keep: "stored_file_time s1 = t0" "ray_trace_shader s1 = shader"
    using react_to_inputs_keeps_shader[OF r]
    by (simp_all add: event_loop_def step_tick_def initial_state_def)
  have cmp: "CompareFileTime (last_write_time inp) (stored_file_time (update_camera s1)) \<noteq> 0"
    using assms(1) keep by (auto simp: CompareFileTime_def update_camera_def)
  show ?thesis
    unfolding s' using cmp keep
    by (simp add: ui_rendering_def ray_tracing_def hot_reload_def reset_rendering_def Let_def
        update_camera_def initial_state_def)
qed

theorem first_frame_reloads_witness:
  "(0 :: FILETIME) \<noteq> last_write_time first_frame_input
   \<and> frame grey_of_value saturating_clamp first_frame_input (start_state 0) \<noteq> None
   \<and> is_ready (compiled_shader first_frame_input)
   \<and> frame_trace grey_of_value saturating_clamp first_frame_input (start_state 0)
       = Some [StepTick, CompileShader, ReleaseShader (ComputeShader 0 True),
               ResetRendering, RunCompute 20 15 1]"
proof -
  have a: "(0 :: FILETIME) \<noteq> last_write_time first_frame_input"
    by (simp add: first_frame_input_def idle_input_def)
  have b: "frame grey_of_value saturating_clamp first_frame_input
             (initial_state 0 (ComputeShader 0 True) (initial_spheres (Vector4 0 0 0 0)) zero_source)
           = Some (Inr ((start_state 0)
       \<lparr> config := (config (start_state 0))
            \<lparr> camera_pos := camera_position 0 (polar (start_state 0)) 10, step := 1 \<rparr>,
         ray_trace_shader := ComputeShader 1 True,
         stored_file_time := 7,
         trace := [StepTick, CompileShader, ReleaseShader (ComputeShader 0 True),
                   ResetRendering, RunCompute 20 15 1] \<rparr>))"
    using frame_first[of grey_of_value saturating_clamp] by (simp only: start_state_def)
  have c: "is_ready (compiled_shader first_frame_input)"
    by (simp add: first_frame_input_def idle_input_def)
  from first_frame_reloads[OF a b] a c show ?thesis
    by (simp add: frame_trace_def frame_first frame_events_def trace_start_state)
qed

end
